theory Spec2Isabelle
  imports Main "HOL-Library.List_Lexorder" "HOL-Library.Char_ord" "HOL-Library.AList"
begin

unbundle bit_operations_syntax

section \<open>Go strings: bytes, runes and UTF-8\<close>

text \<open>
  A Go \<^verbatim>\<open>string\<close> is a sequence of bytes, here a \<^typ>\<open>string\<close> (a list of 8-bit
  characters). A rune is a code point; the scanner's end-of-input marker is the rune \<open>-1\<close>.
\<close>

type_synonym rune = int

definition byte :: "char \<Rightarrow> int" where
  "byte c = of_char c"

definition RuneError :: rune where
  "RuneError = 0xFFFD"

definition EOF :: rune where
  "EOF = - 1"

definition isCont :: "char \<Rightarrow> bool" where
  "isCont c = (0x80 \<le> byte c \<and> byte c \<le> 0xBF)"

definition contBits :: "char \<Rightarrow> int" where
  "contBits c = byte c - 0x80"

text \<open>
  \<^verbatim>\<open>utf8.DecodeRune\<close>: the first rune of a byte string and its width. The first byte
  gives the size of the encoding and the accepted range of the second byte (Go's tables
  \<^verbatim>\<open>first\<close> and \<^verbatim>\<open>acceptRanges\<close>: no overlong forms, no surrogates, nothing above
  U+10FFFF). An invalid or truncated encoding is \<open>(RuneError, 1)\<close>; the empty string is
  \<open>(RuneError, 0)\<close>.
\<close>

definition runeSize :: "int \<Rightarrow> nat" where
  "runeSize x =
    (if x < 0x80 then 1
     else if 0xC2 \<le> x \<and> x \<le> 0xDF then 2
     else if 0xE0 \<le> x \<and> x \<le> 0xEF then 3
     else if 0xF0 \<le> x \<and> x \<le> 0xF4 then 4
     else 0)"

definition acceptLo :: "int \<Rightarrow> int" where
  "acceptLo x = (if x = 0xE0 then 0xA0 else if x = 0xF0 then 0x90 else 0x80)"

definition acceptHi :: "int \<Rightarrow> int" where
  "acceptHi x = (if x = 0xED then 0x9F else if x = 0xF4 then 0x8F else 0xBF)"

definition DecodeRune :: "string \<Rightarrow> rune \<times> nat" where
  "DecodeRune p =
    (if length p < 1 then (RuneError, 0)
     else
       (let p0 = byte (p ! 0); sz = runeSize p0 in
        if sz = 0 then (RuneError, 1)
        else if sz = 1 then (p0, 1)
        else if length p < sz then (RuneError, 1)
        else if byte (p ! 1) < acceptLo p0 \<or> acceptHi p0 < byte (p ! 1) then (RuneError, 1)
        else if sz \<le> 2 then ((p0 - 0xC0) * 64 + contBits (p ! 1), 2)
        else if \<not> isCont (p ! 2) then (RuneError, 1)
        else if sz \<le> 3 then
          ((p0 - 0xE0) * 4096 + contBits (p ! 1) * 64 + contBits (p ! 2), 3)
        else if \<not> isCont (p ! 3) then (RuneError, 1)
        else
          ((p0 - 0xF0) * 262144 + contBits (p ! 1) * 4096 + contBits (p ! 2) * 64
             + contBits (p ! 3), 4)))"

text \<open>
  The Unicode tables (\<^verbatim>\<open>unicode.IsLetter\<close>, \<^verbatim>\<open>unicode.IsDigit\<close>, the case mapping
  behind \<^verbatim>\<open>strings.ToLower\<close>) belong to Go's standard library. On ASCII they are written
  out below; beyond ASCII they are a parameter, so every theorem holds for any tables.
\<close>

record unicode =
  uniIsLetter :: "rune \<Rightarrow> bool"
  uniIsDigit :: "rune \<Rightarrow> bool"
  uniToLower :: "string \<Rightarrow> string"

definition IsLetter :: "unicode \<Rightarrow> rune \<Rightarrow> bool" where
  "IsLetter U ch =
    (if ch < 0 then False
     else if ch < 0x80 then (0x41 \<le> ch \<and> ch \<le> 0x5A) \<or> (0x61 \<le> ch \<and> ch \<le> 0x7A)
     else uniIsLetter U ch)"

definition IsDigit :: "unicode \<Rightarrow> rune \<Rightarrow> bool" where
  "IsDigit U ch =
    (if ch < 0 then False
     else if ch < 0x80 then 0x30 \<le> ch \<and> ch \<le> 0x39
     else uniIsDigit U ch)"

definition isASCII :: "string \<Rightarrow> bool" where
  "isASCII s = list_all (\<lambda>c. byte c < 0x80) s"

definition asciiLower :: "char \<Rightarrow> char" where
  "asciiLower c = (if 0x41 \<le> byte c \<and> byte c \<le> 0x5A then char_of (byte c + 0x20) else c)"

text \<open>
  \<^verbatim>\<open>strings.ToLower\<close>: Go's fast path maps \<open>A..Z\<close> to \<open>a..z\<close> when every byte is ASCII
  and otherwise maps each rune through the Unicode tables.
\<close>

definition ToLower :: "unicode \<Rightarrow> string \<Rightarrow> string" where
  "ToLower U s = (if isASCII s then map asciiLower s else uniToLower U s)"

definition HasPrefix :: "string \<Rightarrow> string \<Rightarrow> bool" where
  "HasPrefix s p = (take (length p) s = p)"

text \<open>\<^verbatim>\<open>strings.LastIndexByte\<close>, as an \<^typ>\<open>int\<close>: \<open>-1\<close> when the byte does not occur.\<close>

fun LastIndexByte :: "string \<Rightarrow> char \<Rightarrow> int" where
  "LastIndexByte [] c = - 1"
| "LastIndexByte (x # xs) c =
    (let i = LastIndexByte xs c in
     if 0 \<le> i then i + 1 else if x = c then 0 else - 1)"

text \<open>\<^verbatim>\<open>unicode.IsSpace\<close>: the Latin-1 spaces and the code points with property White_Space.\<close>

definition IsSpace :: "rune \<Rightarrow> bool" where
  "IsSpace ch =
    (ch = 0x09 \<or> ch = 0x0A \<or> ch = 0x0B \<or> ch = 0x0C \<or> ch = 0x0D \<or> ch = 0x20
     \<or> ch = 0x85 \<or> ch = 0xA0 \<or> ch = 0x1680 \<or> (0x2000 \<le> ch \<and> ch \<le> 0x200A)
     \<or> ch = 0x2028 \<or> ch = 0x2029 \<or> ch = 0x202F \<or> ch = 0x205F \<or> ch = 0x3000)"

text \<open>
  \<^verbatim>\<open>utf8.DecodeLastRune\<close>: walks back from the last byte to the nearest byte that can
  start a rune (at most \<open>UTFMax = 4\<close> bytes), decodes from there, and accepts the rune only
  when it ends exactly at the end of the string.
\<close>

definition RuneStart :: "char \<Rightarrow> bool" where
  "RuneStart c = (\<not> isCont c)"

fun backToStart :: "string \<Rightarrow> nat \<Rightarrow> nat \<Rightarrow> nat" where
  "backToStart s lim 0 = 0"
| "backToStart s lim (Suc k) =
    (if Suc k \<le> lim then k
     else if RuneStart (s ! k) then k
     else backToStart s lim k)"

definition DecodeLastRune :: "string \<Rightarrow> rune \<times> nat" where
  "DecodeLastRune s =
    (let end = length s in
     if end = 0 then (RuneError, 0)
     else if byte (s ! (end - 1)) < 0x80 then (byte (s ! (end - 1)), 1)
     else
       (let lim = end - 4;
            start = backToStart s lim (end - 1);
            (r, size) = DecodeRune (drop start s)
        in if start + size \<noteq> end then (RuneError, 1) else (r, size)))"

text \<open>
  \<^verbatim>\<open>strings.TrimSpace\<close>. Go strips ASCII spaces bytewise and falls back to the
  rune-wise \<^verbatim>\<open>TrimFunc(s, unicode.IsSpace)\<close> at the first non-ASCII byte; both give the
  rune-wise trimming written here: first on the left, then on the right of what is left.
\<close>

function TrimLeftSpace :: "string \<Rightarrow> string" where
  "TrimLeftSpace s =
    (if s \<noteq> [] \<and> IsSpace (fst (DecodeRune s))
     then TrimLeftSpace (drop (snd (DecodeRune s)) s) else s)"
  by pat_completeness auto

function TrimRightSpace :: "string \<Rightarrow> string" where
  "TrimRightSpace s =
    (if s \<noteq> [] \<and> IsSpace (fst (DecodeLastRune s))
     then TrimRightSpace (take (length s - snd (DecodeLastRune s)) s) else s)"
  by pat_completeness auto

lemma DecodeRune_Nil [simp]: "DecodeRune [] = (RuneError, 0)"
  by (simp add: DecodeRune_def)

lemma DecodeRune_width: "s \<noteq> [] \<Longrightarrow> 1 \<le> snd (DecodeRune s) \<and> snd (DecodeRune s) \<le> 4"
  by (cases s) (simp_all add: DecodeRune_def Let_def)

lemma backToStart_le: "backToStart s lim k \<le> k"
  by (induction k) auto

lemma DecodeLastRune_width: "s \<noteq> [] \<Longrightarrow> 1 \<le> snd (DecodeLastRune s)"
proof -
  assume ne: "s \<noteq> []"
  let ?st = "backToStart s (length s - 4) (length s - 1)"
  have "?st \<le> length s - 1" by (rule backToStart_le)
  with ne have "drop ?st s \<noteq> []" by (cases s) auto
  then have "1 \<le> snd (DecodeRune (drop ?st s))" using DecodeRune_width by blast
  then show ?thesis using ne
    by (auto simp: DecodeLastRune_def Let_def split: prod.splits)
qed

termination TrimLeftSpace
proof (relation "measure length")
  show "wf (measure length)" by simp
next
  fix s :: string
  assume "s \<noteq> [] \<and> IsSpace (fst (DecodeRune s))"
  then show "(drop (snd (DecodeRune s)) s, s) \<in> measure length"
    using DecodeRune_width [of s] by simp
qed

termination TrimRightSpace
proof (relation "measure length")
  show "wf (measure length)" by simp
next
  fix s :: string
  assume "s \<noteq> [] \<and> IsSpace (fst (DecodeLastRune s))"
  then show "(take (length s - snd (DecodeLastRune s)) s, s) \<in> measure length"
    using DecodeLastRune_width [of s] by simp
qed

declare TrimLeftSpace.simps [simp del] TrimRightSpace.simps [simp del]

definition TrimSpace :: "string \<Rightarrow> string" where
  "TrimSpace s = TrimRightSpace (TrimLeftSpace s)"

section \<open>The tokenizer: Go's \<^verbatim>\<open>text/scanner\<close>\<close>

text \<open>
  \<^verbatim>\<open>parseQuery\<close> drives a \<^verbatim>\<open>scanner.Scanner\<close> in mode \<^verbatim>\<open>GoTokens\<close> with
  \<^verbatim>\<open>SkipComments\<close> switched off, and reads from it only \<^verbatim>\<open>TokenText()\<close> and
  \<^verbatim>\<open>Pos().Offset\<close>. The scanner always holds one rune of lookahead; its state is modelled
  by the input that starts at that rune, so that \<^verbatim>\<open>Pos().Offset\<close> is the length of the
  whole text minus the length of what remains. Only the extent of each token is modelled:
  the scanner's error reports go to standard error and change neither.
\<close>

definition peek :: "string \<Rightarrow> rune" where
  "peek r = (if r = [] then EOF else fst (DecodeRune r))"

definition adv :: "string \<Rightarrow> string" where
  "adv r = drop (snd (DecodeRune r)) r"

lemma adv_less: "r \<noteq> [] \<Longrightarrow> length (adv r) < length r"
  using DecodeRune_width [of r] by (simp add: adv_def)

lemma adv_le: "length (adv r) \<le> length r"
  by (simp add: adv_def)

text \<open>The loop \<^verbatim>\<open>for P(ch) { ch = s.next() }\<close>; every \<open>P\<close> used below is false at EOF.\<close>

function scanWhile :: "(rune \<Rightarrow> bool) \<Rightarrow> string \<Rightarrow> string" where
  "scanWhile P r = (if r \<noteq> [] \<and> P (peek r) then scanWhile P (adv r) else r)"
  by pat_completeness auto
termination
  by (relation "measure (\<lambda>(P, r). length r)") (auto simp: adv_less)

declare scanWhile.simps [simp del]

definition isWhitespace :: "rune \<Rightarrow> bool" where
  "isWhitespace ch = (ch = 0x09 \<or> ch = 0x0A \<or> ch = 0x0D \<or> ch = 0x20)"

definition isIdentRune :: "unicode \<Rightarrow> rune \<Rightarrow> nat \<Rightarrow> bool" where
  "isIdentRune U ch i = (ch = 0x5F \<or> IsLetter U ch \<or> IsDigit U ch \<and> 0 < i)"

definition scanIdentifier :: "unicode \<Rightarrow> string \<Rightarrow> string" where
  "scanIdentifier U r = scanWhile (\<lambda>ch. isIdentRune U ch 1) (adv r)"

definition lower :: "rune \<Rightarrow> rune" where
  "lower ch = 0x20 OR ch"

definition isDecimal :: "rune \<Rightarrow> bool" where
  "isDecimal ch = (0x30 \<le> ch \<and> ch \<le> 0x39)"

definition isHex :: "rune \<Rightarrow> bool" where
  "isHex ch = (0x30 \<le> ch \<and> ch \<le> 0x39 \<or> 0x61 \<le> lower ch \<and> lower ch \<le> 0x66)"

definition digitVal :: "rune \<Rightarrow> int" where
  "digitVal ch =
    (if 0x30 \<le> ch \<and> ch \<le> 0x39 then ch - 0x30
     else if 0x61 \<le> lower ch \<and> lower ch \<le> 0x66 then lower ch - 0x61 + 10
     else 16)"

definition digits :: "string \<Rightarrow> nat \<Rightarrow> string" where
  "digits r base =
    (if base \<le> 10 then scanWhile (\<lambda>ch. isDecimal ch \<or> ch = 0x5F) r
     else scanWhile (\<lambda>ch. isHex ch \<or> ch = 0x5F) r)"

text \<open>
  \<^verbatim>\<open>scanNumber(ch, seenDot)\<close>: an optional prefix \<open>0x\<close>, \<open>0o\<close>, \<open>0b\<close> or \<open>0\<close>, the digits of the
  integer part, an optional fraction, an optional exponent \<open>e\<close> or \<open>p\<close> with its sign.
\<close>

definition numberPrefix :: "string \<Rightarrow> string \<times> nat" where
  "numberPrefix r =
    (if peek r = 0x30 then
       (let rz = adv r; l = lower (peek rz) in
        if l = 0x78 then (adv rz, 16)
        else if l = 0x6F then (adv rz, 8)
        else if l = 0x62 then (adv rz, 2)
        else (rz, 8))
     else (r, 10))"

definition scanExponent :: "string \<Rightarrow> string" where
  "scanExponent r =
    (let e = lower (peek r) in
     if e = 0x65 \<or> e = 0x70 then
       (let r3 = adv r;
            r4 = (if peek r3 = 0x2B \<or> peek r3 = 0x2D then adv r3 else r3)
        in digits r4 10)
     else r)"

definition scanNumber :: "string \<Rightarrow> bool \<Rightarrow> string" where
  "scanNumber r seenDot =
    (if \<not> seenDot then
       (let (ra, base) = numberPrefix r; rb = digits ra base in
        if peek rb = 0x2E then scanExponent (digits (adv rb) base) else scanExponent rb)
     else scanExponent (digits r 10))"

fun scanDigits :: "string \<Rightarrow> int \<Rightarrow> nat \<Rightarrow> string" where
  "scanDigits r base 0 = r"
| "scanDigits r base (Suc n) =
    (if digitVal (peek r) < base then scanDigits (adv r) base n else r)"

text \<open>\<^verbatim>\<open>scanEscape(quote)\<close>, entered with the backslash as the current rune.\<close>

definition scanEscape :: "rune \<Rightarrow> string \<Rightarrow> string" where
  "scanEscape quote r =
    (let r1 = adv r; ch = peek r1 in
     if ch = 0x61 \<or> ch = 0x62 \<or> ch = 0x66 \<or> ch = 0x6E \<or> ch = 0x72 \<or> ch = 0x74
        \<or> ch = 0x76 \<or> ch = 0x5C \<or> ch = quote then adv r1
     else if 0x30 \<le> ch \<and> ch \<le> 0x37 then scanDigits r1 8 3
     else if ch = 0x78 then scanDigits (adv r1) 16 2
     else if ch = 0x75 then scanDigits (adv r1) 16 4
     else if ch = 0x55 then scanDigits (adv r1) 16 8
     else r1)"

lemma scanDigits_le: "length (scanDigits r base n) \<le> length r"
proof (induction n arbitrary: r)
  case 0
  show ?case by simp
next
  case (Suc n)
  have "length (scanDigits (adv r) base n) \<le> length r"
    using Suc [of "adv r"] adv_le [of r] by linarith
  then show ?case by simp
qed

lemma scanEscape_less: "r \<noteq> [] \<Longrightarrow> length (scanEscape quote r) < length r"
proof -
  assume ne: "r \<noteq> []"
  have a: "length (adv r) < length r" using ne by (rule adv_less)
  have b: "length (adv (adv r)) \<le> length (adv r)" by (rule adv_le)
  have c: "\<And>base n. length (scanDigits (adv r) base n) \<le> length (adv r)"
    by (rule scanDigits_le)
  have d: "\<And>base n. length (scanDigits (adv (adv r)) base n) \<le> length (adv (adv r))"
    by (rule scanDigits_le)
  show ?thesis
    using a b c [of 8 3] d [of 16 2] d [of 16 4] d [of 16 8]
    by (simp add: scanEscape_def Let_def)
qed

text \<open>
  The body of \<^verbatim>\<open>scanString(quote)\<close>: it stops at the closing quote, or at a newline or
  the end of input when the literal is not terminated.
\<close>

function strBody :: "rune \<Rightarrow> string \<Rightarrow> string" where
  "strBody quote r =
    (if peek r = quote then r
     else if peek r = 0x0A \<or> r = [] then r
     else if peek r = 0x5C then strBody quote (scanEscape quote r)
     else strBody quote (adv r))"
  by pat_completeness auto
termination
  by (relation "measure (\<lambda>(q, r). length r)") (auto simp: adv_less scanEscape_less)

declare strBody.simps [simp del]

definition scanString :: "rune \<Rightarrow> string \<Rightarrow> string" where
  "scanString quote r = strBody quote (adv r)"

definition scanRawString :: "string \<Rightarrow> string" where
  "scanRawString r = scanWhile (\<lambda>ch. ch \<noteq> 0x60) (adv r)"

function generalComment :: "string \<Rightarrow> string" where
  "generalComment r =
    (if r = [] then r
     else if peek r = 0x2A \<and> peek (adv r) = 0x2F then adv (adv r)
     else generalComment (adv r))"
  by pat_completeness auto
termination
  by (relation "measure length") (auto simp: adv_less)

declare generalComment.simps [simp del]

text \<open>\<^verbatim>\<open>scanComment(ch)\<close>, entered at the second character of \<open>//\<close> or \<open>/*\<close>.\<close>

definition scanComment :: "string \<Rightarrow> string" where
  "scanComment r =
    (if peek r = 0x2F then scanWhile (\<lambda>ch. ch \<noteq> 0x0A) (adv r)
     else generalComment (adv r))"

text \<open>
  One token, entered at its first rune (white space skipped, not at EOF); the result is the
  input from the next lookahead rune on. The order of the tests is that of
  \<^verbatim>\<open>Scanner.Scan\<close>.
\<close>

definition scanToken :: "unicode \<Rightarrow> string \<Rightarrow> string" where
  "scanToken U r =
    (let ch = peek r in
     if isIdentRune U ch 0 then scanIdentifier U r
     else if isDecimal ch then scanNumber r False
     else if ch = 0x22 then adv (scanString 0x22 r)
     else if ch = 0x27 then adv (scanString 0x27 r)
     else if ch = 0x2E then
       (let r1 = adv r in if isDecimal (peek r1) then scanNumber r1 True else r1)
     else if ch = 0x2F then
       (let r1 = adv r in
        if peek r1 = 0x2F \<or> peek r1 = 0x2A then scanComment r1 else r1)
     else if ch = 0x60 then adv (scanRawString r)
     else adv r)"

text \<open>
  \<^verbatim>\<open>Scan()\<close>: \<open>None\<close> is the token \<^verbatim>\<open>scanner.EOF\<close> (all input consumed); otherwise the
  token text and the remaining input.
\<close>

definition Scan :: "unicode \<Rightarrow> string \<Rightarrow> (string \<times> string) option" where
  "Scan U r =
    (let r0 = scanWhile isWhitespace r in
     if r0 = [] then None
     else (let r1 = scanToken U r0 in Some (take (length r0 - length r1) r0, r1)))"

text \<open>The first call of \<^verbatim>\<open>Scan\<close> ignores a byte order mark at the start of the text.\<close>

definition skipBOM :: "string \<Rightarrow> string" where
  "skipBOM b = (if peek b = 0xFEFF then adv b else b)"

lemma scanWhile_le: "length (scanWhile P r) \<le> length r"
proof (induction P r rule: scanWhile.induct)
  case (1 P r)
  show ?case
  proof (cases "r \<noteq> [] \<and> P (peek r)")
    case True
    then have "length (scanWhile P (adv r)) \<le> length (adv r)" using "1" by simp
    then have "length (scanWhile P (adv r)) \<le> length r" using adv_le [of r] by linarith
    then show ?thesis using True by (subst scanWhile.simps) simp
  next
    case False
    then show ?thesis by (subst scanWhile.simps) auto
  qed
qed

lemma digits_le: "length (digits r base) \<le> length r"
  by (simp add: digits_def scanWhile_le)

lemma numberPrefix_le: "length (fst (numberPrefix r)) \<le> length r"
  using adv_le [of r] adv_le [of "adv r"]
  by (simp add: numberPrefix_def Let_def)

lemma scanExponent_le: "length (scanExponent r) \<le> length r"
  using adv_le [of r] adv_le [of "adv r"] digits_le [of "adv r" 10] digits_le [of "adv (adv r)" 10]
  by (simp add: scanExponent_def Let_def)

lemma scanNumber_le: "length (scanNumber r seenDot) \<le> length r"
proof (cases seenDot)
  case True
  have "length (scanExponent (digits r 10)) \<le> length (digits r 10)" by (rule scanExponent_le)
  also have "\<dots> \<le> length r" by (rule digits_le)
  finally show ?thesis using True by (simp add: scanNumber_def)
next
  case False
  obtain ra base where np: "numberPrefix r = (ra, base)" by (cases "numberPrefix r")
  have ra: "length ra \<le> length r" using numberPrefix_le [of r] np by simp
  let ?rb = "digits ra base"
  have rb: "length ?rb \<le> length r" using digits_le [of ra base] ra by linarith
  have e1: "length (scanExponent ?rb) \<le> length r"
    using scanExponent_le [of ?rb] rb by linarith
  have "length (scanExponent (digits (adv ?rb) base)) \<le> length (digits (adv ?rb) base)"
    by (rule scanExponent_le)
  also have "\<dots> \<le> length (adv ?rb)" by (rule digits_le)
  also have "\<dots> \<le> length ?rb" by (rule adv_le)
  finally have e2: "length (scanExponent (digits (adv ?rb) base)) \<le> length r"
    using rb by linarith
  show ?thesis using False np e1 e2 by (simp add: scanNumber_def Let_def)
qed

lemma isDecimal_ne: "isDecimal (peek r) \<Longrightarrow> r \<noteq> []"
  by (auto simp: isDecimal_def peek_def EOF_def)

lemma digits_decimal_less:
  assumes "isDecimal (peek r)"
  shows "length (digits r 10) < length r"
proof -
  let ?P = "\<lambda>ch. isDecimal ch \<or> ch = 0x5F"
  have ne: "r \<noteq> []" using assms by (rule isDecimal_ne)
  have "scanWhile ?P r = scanWhile ?P (adv r)"
    using ne assms by (subst scanWhile.simps) simp
  moreover have "length (scanWhile ?P (adv r)) \<le> length (adv r)" by (rule scanWhile_le)
  moreover have "length (adv r) < length r" using ne by (rule adv_less)
  ultimately show ?thesis by (simp add: digits_def)
qed

lemma scanNumber_less:
  assumes "isDecimal (peek r)"
  shows "length (scanNumber r False) < length r"
proof -
  have ne: "r \<noteq> []" using assms by (rule isDecimal_ne)
  obtain ra base where np: "numberPrefix r = (ra, base)" by (cases "numberPrefix r")
  let ?rb = "digits ra base"
  have rb: "length ?rb < length r"
  proof (cases "peek r = 0x30")
    case True
    then have "length ra \<le> length (adv r)"
      using np adv_le [of "adv r"] by (auto simp: numberPrefix_def Let_def split: if_splits)
    then have "length ra < length r" using adv_less [OF ne] by linarith
    then show ?thesis using digits_le [of ra base] by linarith
  next
    case False
    then have "ra = r" "base = 10" using np by (auto simp: numberPrefix_def)
    then show ?thesis using digits_decimal_less [OF assms] by simp
  qed
  have e1: "length (scanExponent ?rb) < length r"
    using scanExponent_le [of ?rb] rb by linarith
  have "length (scanExponent (digits (adv ?rb) base)) \<le> length (digits (adv ?rb) base)"
    by (rule scanExponent_le)
  also have "\<dots> \<le> length (adv ?rb)" by (rule digits_le)
  also have "\<dots> \<le> length ?rb" by (rule adv_le)
  finally have e2: "length (scanExponent (digits (adv ?rb) base)) < length r"
    using rb by linarith
  show ?thesis using np e1 e2 by (simp add: scanNumber_def Let_def)
qed

lemma strBody_le: "length (strBody q r) \<le> length r"
proof (induction q r rule: strBody.induct)
  case (1 quote r)
  show ?case
  proof (cases "peek r = quote \<or> peek r = 0x0A \<or> r = []")
    case True
    then show ?thesis by (subst strBody.simps) auto
  next
    case stop: False
    show ?thesis
    proof (cases "peek r = 0x5C")
      case True
      then have "length (strBody quote (scanEscape quote r)) \<le> length (scanEscape quote r)"
        using "1.IH"(1) stop by simp
      also have "\<dots> \<le> length r" using scanEscape_less [of r quote] stop by simp
      finally show ?thesis using True stop by (subst strBody.simps) simp
    next
      case False
      then have "length (strBody quote (adv r)) \<le> length (adv r)"
        using "1.IH"(2) stop by simp
      also have "\<dots> \<le> length r" by (rule adv_le)
      finally show ?thesis using False stop by (subst strBody.simps) simp
    qed
  qed
qed

lemma generalComment_le: "length (generalComment r) \<le> length r"
proof (induction r rule: generalComment.induct)
  case (1 r)
  show ?case
  proof (cases "r = []")
    case True
    then show ?thesis by (subst generalComment.simps) simp
  next
    case ne: False
    show ?thesis
    proof (cases "peek r = 0x2A \<and> peek (adv r) = 0x2F")
      case True
      then show ?thesis
        using adv_le [of r] adv_le [of "adv r"] ne by (subst generalComment.simps) simp
    next
      case False
      then have "length (generalComment (adv r)) \<le> length (adv r)" using "1.IH" ne by simp
      then show ?thesis
        using adv_le [of r] ne False by (subst generalComment.simps) auto
    qed
  qed
qed

lemma scanComment_le: "length (scanComment r) \<le> length r"
  using scanWhile_le [of "\<lambda>ch. ch \<noteq> 0x0A" "adv r"] generalComment_le [of "adv r"] adv_le [of r]
  by (simp add: scanComment_def)

lemma scanToken_less:
  assumes ne: "r \<noteq> []"
  shows "length (scanToken U r) < length r"
proof -
  have a: "length (adv r) < length r" using ne by (rule adv_less)
  have ident: "length (scanIdentifier U r) < length r"
    using scanWhile_le [of "\<lambda>ch. isIdentRune U ch 1" "adv r"] a by (simp add: scanIdentifier_def)
  have str: "\<And>q. length (adv (scanString q r)) < length r"
    using strBody_le [of _ "adv r"] adv_le a by (simp add: scanString_def) (meson le_less_trans order_trans)
  have raw: "length (adv (scanRawString r)) < length r"
    using scanWhile_le [of "\<lambda>ch. ch \<noteq> 0x60" "adv r"] adv_le [of "scanRawString r"] a
    by (simp add: scanRawString_def)
  have num1: "length (scanNumber (adv r) True) < length r"
    using scanNumber_le [of "adv r" True] a by linarith
  have com: "length (scanComment (adv r)) < length r"
    using scanComment_le [of "adv r"] a by linarith
  show ?thesis
    using a ident str raw num1 com scanNumber_less [of r]
    by (simp add: scanToken_def Let_def)
qed

lemma Scan_less:
  assumes "Scan U r = Some (txt, r')"
  shows "length r' < length r"
proof -
  let ?r0 = "scanWhile isWhitespace r"
  from assms have ne: "?r0 \<noteq> []" and r': "r' = scanToken U ?r0"
    by (auto simp: Scan_def Let_def split: if_splits)
  have "length r' < length ?r0" using scanToken_less [OF ne] r' by simp
  also have "\<dots> \<le> length r" by (rule scanWhile_le)
  finally show ?thesis .
qed

section \<open>The record model\<close>

record Metadata =
  Order_Var :: string
  Order_Values :: "string list"

record Frag =
  Frag_Name :: string
  Frag_Value :: string

text \<open>The struct \<^verbatim>\<open>Item\<close>; \<open>key\<close> and \<open>frags\<close> are its two unexported fields.\<close>

record Item =
  Namespace :: string
  Name :: string
  Comment :: string
  key :: string
  Query :: string
  Vars :: string
  Metadata :: Metadata
  frags :: "Frag list"

definition zeroMetadata :: Metadata where
  "zeroMetadata = \<lparr>Order_Var = [], Order_Values = []\<rparr>"

definition zeroItem :: Item where
  "zeroItem = \<lparr>Namespace = [], Name = [], Comment = [], key = [], Query = [], Vars = [],
     Metadata = zeroMetadata, frags = []\<rparr>"

text \<open>
  Errors. The values made in \<^verbatim>\<open>allow.go\<close> are constructors of their own; an error that
  comes back from a collaborator (filesystem, codecs, parsers) is an \<open>ext_error\<close>, which
  can never be the package's sentinel \<^verbatim>\<open>errUnknownFileType\<close>; \<open>ErrNotExist\<close> is the
  one that \<^verbatim>\<open>os.IsNotExist\<close> recognises.
\<close>

datatype ext_error = ErrNotExist | ExtError string

datatype error =
    ErrReadOnly
  | ErrEmptyQuery
  | ErrUnknownFileType
  | ErrInvalidFilename string
  | ErrNoQueryName
  | ErrNoFilesystem
  | ErrAllowList ext_error
  | ErrExternal ext_error

text \<open>A Go call either returns or panics (here: a slice expression out of range).\<close>

datatype 'a result = Panics | Returns 'a

section \<open>The segmenter\<close>

datatype state = expComment | expVar | expQuery | expFrag

text \<open>
  Modelled from the spec: \<^verbatim>\<open>isGraphQL\<close> is declared in another file of the package. The
  spec enters the query state when the token \<open>query\<close>, \<open>mutation\<close> or \<open>subscription\<close> is
  seen, in the words it uses for \<open>variables\<close> and \<open>fragment\<close>, which \<^verbatim>\<open>parseQuery\<close>
  tests with \<^verbatim>\<open>strings.HasPrefix\<close>.
\<close>

definition isGraphQL :: "string \<Rightarrow> bool" where
  "isGraphQL txt =
    (HasPrefix txt ''query'' \<or> HasPrefix txt ''mutation'' \<or> HasPrefix txt ''subscription'')"

text \<open>
  Modelled from the spec: the search of \<^verbatim>\<open>fragmentName\<close>, which is declared in another
  file of the package, for the \<open>fragment\<close> keyword; the result is the input after it.
\<close>

function afterFragment :: "unicode \<Rightarrow> string \<Rightarrow> string" where
  "afterFragment U r =
    (case Scan U r of
       None \<Rightarrow> []
     | Some (txt, r') \<Rightarrow> if txt = ''fragment'' then r' else afterFragment U r')"
  by pat_completeness auto
termination
  by (relation "measure (\<lambda>(U, r). length r)") (auto simp: Scan_less)

declare afterFragment.simps [simp del]

text \<open>
  Modelled from the spec: \<^verbatim>\<open>fragmentName\<close> is declared in another file of the package.
  The spec has it extract the identifier immediately following the \<open>fragment\<close> keyword.
\<close>

definition fragmentName :: "unicode \<Rightarrow> string \<Rightarrow> string" where
  "fragmentName U v =
    (case Scan U (afterFragment U (skipBOM v)) of
       None \<Rightarrow> []
     | Some (txt, r') \<Rightarrow> if isIdentRune U (peek txt) 0 then txt else [])"

text \<open>The closure \<^verbatim>\<open>val\<close> of \<^verbatim>\<open>setValue\<close>: \<^verbatim>\<open>TrimSpace(v[:LastIndexByte(v, '}')+1])\<close>.\<close>

definition val :: "string \<Rightarrow> string" where
  "val v = TrimSpace (take (nat (LastIndexByte v (CHR ''}'') + 1)) v)"

fun setValue :: "unicode \<Rightarrow> state \<Rightarrow> string \<Rightarrow> Item \<Rightarrow> Item \<times> error option" where
  "setValue U expComment v item = (item\<lparr>Comment := val v\<rparr>, None)"
| "setValue U expVar v item = (item\<lparr>Vars := val v\<rparr>, None)"
| "setValue U expQuery v item = (item\<lparr>Query := val v\<rparr>, None)"
| "setValue U expFrag v item =
    (let f = \<lparr>Frag_Name = [], Frag_Value = val v\<rparr>;
         f = f\<lparr>Frag_Name := fragmentName U (Frag_Value f)\<rparr>
     in (item\<lparr>frags := frags item @ [f]\<rparr>, None))"

text \<open>The slice expression \<^verbatim>\<open>b[lo:hi]\<close>; \<open>None\<close> is Go's run-time panic.\<close>

definition slice :: "string \<Rightarrow> nat \<Rightarrow> nat \<Rightarrow> string option" where
  "slice b lo hi = (if lo \<le> hi \<and> hi \<le> length b then Some (take (hi - lo) (drop lo b)) else None)"

text \<open>\<^verbatim>\<open>s.Pos().Offset\<close> when \<open>r\<close> is what remains of \<open>b\<close> from the lookahead rune on.\<close>

definition Pos :: "string \<Rightarrow> string \<Rightarrow> nat" where
  "Pos b r = length b - length r"

text \<open>
  The \<^verbatim>\<open>switch\<close> of the loop body: for a trigger token, the split point and the state
  that follow the flush; \<open>None\<close> for any other token. \<open>pos\<close> is \<^verbatim>\<open>s.Pos()\<close> after the
  token and \<open>op\<close> is \<^verbatim>\<open>s.Pos()\<close> after the token before it.
\<close>

definition trigger :: "string \<Rightarrow> nat \<Rightarrow> nat \<Rightarrow> state \<Rightarrow> (nat \<times> state) option" where
  "trigger txt op pos st =
    (if HasPrefix txt ''/*'' then Some (pos, st)
     else if HasPrefix txt ''variables'' then Some (pos, expVar)
     else if isGraphQL txt then Some (op, expQuery)
     else if HasPrefix txt ''fragment'' then Some (op, expFrag)
     else None)"

text \<open>\<^verbatim>\<open>v := b[sp.Offset:s.Pos().Offset]; item, err = setValue(st, v, item)\<close>.\<close>

definition flush ::
  "unicode \<Rightarrow> string \<Rightarrow> nat \<Rightarrow> nat \<Rightarrow> state \<Rightarrow> Item \<Rightarrow> (Item \<times> error option) result" where
  "flush U b sp pos st item =
    (case slice b sp pos of
       None \<Rightarrow> Panics
     | Some v \<Rightarrow> Returns (setValue U st v item))"

text \<open>The statements of \<^verbatim>\<open>parseQuery\<close> after its loop.\<close>

definition finish ::
  "unicode \<Rightarrow> string \<Rightarrow> nat \<Rightarrow> state \<Rightarrow> Item \<Rightarrow> (Item \<times> error option) result" where
  "finish U b sp st item =
    (case (if st = expQuery \<or> st = expFrag then flush U b sp (Pos b []) st item
           else Returns (item, None)) of
       Panics \<Rightarrow> Panics
     | Returns (item', Some e) \<Rightarrow> Returns (item', Some e)
     | Returns (item', None) \<Rightarrow> Returns (item'\<lparr>key := ToLower U (Name item')\<rparr>, None))"

text \<open>
  The loop of \<^verbatim>\<open>parseQuery\<close>: \<open>r\<close> is the scanner, \<open>sp\<close> and \<open>op\<close> the offsets of the
  two saved positions, \<open>st\<close> the state, \<open>item\<close> the record so far.
\<close>

function parseLoop ::
  "unicode \<Rightarrow> string \<Rightarrow> string \<Rightarrow> nat \<Rightarrow> nat \<Rightarrow> state \<Rightarrow> Item \<Rightarrow> (Item \<times> error option) result"
where
  "parseLoop U b r sp op st item =
    (case Scan U r of
       None \<Rightarrow> finish U b sp st item
     | Some (txt, r') \<Rightarrow>
        (case trigger txt op (Pos b r') st of
           None \<Rightarrow> parseLoop U b r' sp (Pos b r') st item
         | Some (sp', st') \<Rightarrow>
            (case flush U b sp (Pos b r') st item of
               Panics \<Rightarrow> Panics
             | Returns (item', Some e) \<Rightarrow> Returns (item', Some e)
             | Returns (item', None) \<Rightarrow> parseLoop U b r' sp' (Pos b r') st' item')))"
  by pat_completeness auto
termination
  by (relation "measure (\<lambda>(U, b, r, sp, op, st, item). length r)") (auto simp: Scan_less)

declare parseLoop.simps [simp del]

definition parseQuery :: "unicode \<Rightarrow> string \<Rightarrow> (Item \<times> error option) result" where
  "parseQuery U b = parseLoop U b (skipBOM b) 0 0 expComment zeroItem"

lemma setValue_ok: "\<exists>item'. setValue U st v item = (item', None) \<and> Name item' = Name item \<and> key item' = key item"
  by (cases st) (simp_all add: Let_def)

lemma Pos_mono: "length r' \<le> length r \<Longrightarrow> Pos b r \<le> Pos b r'"
  by (simp add: Pos_def)

lemma Pos_le: "Pos b r \<le> length b"
  by (simp add: Pos_def)

lemma flush_ok:
  assumes "sp \<le> pos" and "pos \<le> length b"
  shows "\<exists>item'. flush U b sp pos st item = Returns (item', None) \<and> Name item' = Name item \<and> key item' = key item"
  using assms setValue_ok [of U st "take (pos - sp) (drop sp b)" item]
  by (auto simp: flush_def slice_def)

lemma trigger_le:
  assumes "trigger txt op pos st = Some (sp', st')" and "op \<le> pos"
  shows "sp' \<le> pos"
  using assms by (auto simp: trigger_def split: if_splits)

lemma ToLower_Nil: "ToLower U [] = []"
  by (simp add: ToLower_def isASCII_def)

lemma finish_ok:
  assumes "sp \<le> length b" and "Name item = []"
  shows "\<exists>item'. finish U b sp st item = Returns (item', None) \<and> Name item' = [] \<and> key item' = []"
proof (cases "st = expQuery \<or> st = expFrag")
  case True
  obtain item1 where f: "flush U b sp (Pos b []) st item = Returns (item1, None)"
    and n: "Name item1 = Name item"
    using flush_ok [of sp "Pos b []" b U st item] assms(1) by (auto simp: Pos_def)
  show ?thesis using True f n assms(2) by (simp add: finish_def ToLower_Nil)
next
  case False
  then show ?thesis using assms(2) by (simp add: finish_def ToLower_Nil)
qed

lemma parseLoop_ok:
  "sp \<le> Pos b r \<Longrightarrow> op \<le> Pos b r \<Longrightarrow> Name item = [] \<Longrightarrow>
   \<exists>item'. parseLoop U b r sp op st item = Returns (item', None) \<and> Name item' = [] \<and> key item' = []"
proof (induction U b r sp op st item rule: parseLoop.induct)
  case (1 U b r sp op st item)
  show ?case
  proof (cases "Scan U r")
    case None
    have "sp \<le> length b" using "1.prems"(1) Pos_le [of b r] by linarith
    then show ?thesis
      using None finish_ok [of sp b item U st] "1.prems"(3)
      by (subst parseLoop.simps) simp
  next
    case (Some tr)
    obtain tk r' where tr: "tr = (tk, r')" by (cases tr)
    have sc: "Scan U r = Some (tk, r')" using Some tr by simp
    have mono: "Pos b r \<le> Pos b r'" using Scan_less [OF sc] by (simp add: Pos_mono)
    have hsp: "sp \<le> Pos b r'" and hop: "op \<le> Pos b r'"
      using "1.prems"(1,2) mono by linarith+
    show ?thesis
    proof (cases "trigger tk op (Pos b r') st")
      case None
      have "\<exists>item'. parseLoop U b r' sp (Pos b r') st item = Returns (item', None)
              \<and> Name item' = [] \<and> key item' = []"
        using "1.IH"(1) [OF sc refl None] hsp "1.prems"(3) by simp
      then show ?thesis using sc None by (subst parseLoop.simps) simp
    next
      case (Some p)
      obtain sp' st' where p: "p = (sp', st')" by (cases p)
      have tg: "trigger tk op (Pos b r') st = Some (sp', st')" using Some p by simp
      have sp': "sp' \<le> Pos b r'" using trigger_le [OF tg hop] .
      obtain item1 where f: "flush U b sp (Pos b r') st item = Returns (item1, None)"
        and n: "Name item1 = []"
        using flush_ok [OF hsp Pos_le, of U st item] "1.prems"(3) by auto
      have "\<exists>item'. parseLoop U b r' sp' (Pos b r') st' item1 = Returns (item', None)
              \<and> Name item' = [] \<and> key item' = []"
        using "1.IH"(2) [OF sc refl tg refl f refl refl] sp' n by simp
      then show ?thesis using sc tg f by (subst parseLoop.simps) simp
    qed
  qed
qed

lemma parseQuery_ok:
  "\<exists>item. parseQuery U b = Returns (item, None) \<and> Name item = [] \<and> key item = []"
  unfolding parseQuery_def
  by (rule parseLoop_ok) (simp_all add: Pos_def skipBOM_def adv_def zeroItem_def)

section \<open>Paths: Go's \<^verbatim>\<open>path/filepath\<close> on a Unix system\<close>

definition slash :: char where
  "slash = CHR ''/''"

fun extRev :: "string \<Rightarrow> string \<Rightarrow> string" where
  "extRev [] acc = []"
| "extRev (c # cs) acc =
    (if c = slash then [] else if c = CHR ''.'' then c # acc else extRev cs (c # acc))"

text \<open>\<^verbatim>\<open>filepath.Ext\<close>: the suffix from the last dot of the last element on, or empty.\<close>

definition Ext :: "string \<Rightarrow> string" where
  "Ext path = extRev (rev path) []"

text \<open>\<^verbatim>\<open>filepath.Base\<close>: the last element, trailing separators removed first.\<close>

definition Base :: "string \<Rightarrow> string" where
  "Base path =
    (if path = [] then ''.''
     else
       (let p = dropWhile (\<lambda>c. c = slash) (rev path);
            e = rev (takeWhile (\<lambda>c. c \<noteq> slash) p)
        in if e = [] then [slash] else e))"

fun splitSlash :: "string \<Rightarrow> string list" where
  "splitSlash [] = [[]]"
| "splitSlash (c # cs) =
    (if c = slash then [] # splitSlash cs
     else (case splitSlash cs of e # es \<Rightarrow> (c # e) # es | [] \<Rightarrow> [[c]]))"

fun joinSlash :: "string list \<Rightarrow> string" where
  "joinSlash [] = []"
| "joinSlash [e] = e"
| "joinSlash (e # es) = e @ [slash] @ joinSlash es"

text \<open>
  \<^verbatim>\<open>filepath.Clean\<close>, element by element: empty elements and \<open>.\<close> are dropped, \<open>..\<close>
  removes the element before it, or is dropped at the root, or is kept at the start of
  a path that is not rooted. The stack holds the kept elements, last one first.
\<close>

fun cleanElems :: "bool \<Rightarrow> string list \<Rightarrow> string list \<Rightarrow> string list" where
  "cleanElems rooted stack [] = rev stack"
| "cleanElems rooted stack (e # es) =
    (if e = [] \<or> e = ''.'' then cleanElems rooted stack es
     else if e = ''..'' then
       (case stack of
          t # ts \<Rightarrow>
            if t \<noteq> ''..'' then cleanElems rooted ts es
            else cleanElems rooted (e # stack) es
        | [] \<Rightarrow> if rooted then cleanElems rooted stack es else cleanElems rooted [e] es)
     else cleanElems rooted (e # stack) es)"

definition Clean :: "string \<Rightarrow> string" where
  "Clean path =
    (if path = [] then ''.''
     else
       (let rooted = (hd path = slash);
            out = (if rooted then [slash] else []) @ joinSlash (cleanElems rooted [] (splitSlash path))
        in if out = [] then ''.'' else out))"

text \<open>\<^verbatim>\<open>filepath.Join\<close>: leading empty elements are ignored, the rest joined and cleaned.\<close>

definition Join :: "string list \<Rightarrow> string" where
  "Join elem =
    (case dropWhile (\<lambda>e. e = []) elem of
       [] \<Rightarrow> []
     | es \<Rightarrow> Clean (joinSlash es))"

definition TrimSuffix :: "string \<Rightarrow> string \<Rightarrow> string" where
  "TrimSuffix s suffix =
    (if length suffix \<le> length s \<and> drop (length s - length suffix) s = suffix
     then take (length s - length suffix) s else s)"

definition queryPath :: string where
  "queryPath = ''/queries''"

definition fragmentPath :: string where
  "fragmentPath = ''/fragments''"

section \<open>The filesystem (\<^verbatim>\<open>afero.Fs\<close>)\<close>

text \<open>
  The store reads and writes through an abstract filesystem. Here it is a table from
  paths to nodes together with \<open>fault\<close>, which says which operation fails at which path
  for a reason of the environment (permissions, a full disk); a failed operation leaves
  the table as it is.
\<close>

datatype node = FileNode string | DirNode

datatype fsop = OpStat | OpReadDir | OpReadFile | OpWriteFile | OpMkdir

record Fs =
  nodes :: "(string \<times> node) list"
  fault :: "fsop \<Rightarrow> string \<Rightarrow> ext_error option"

record FileInfo =
  fi_Name :: string
  fi_IsDir :: bool

definition Stat :: "Fs \<Rightarrow> string \<Rightarrow> ext_error + FileInfo" where
  "Stat f p =
    (case fault f OpStat p of
       Some e \<Rightarrow> Inl e
     | None \<Rightarrow>
        (case map_of (nodes f) p of
           None \<Rightarrow> Inl ErrNotExist
         | Some n \<Rightarrow> Inr \<lparr>fi_Name = Base p, fi_IsDir = (n = DirNode)\<rparr>))"

text \<open>\<^verbatim>\<open>afero.Exists\<close> and \<^verbatim>\<open>afero.DirExists\<close>, each a pair \<open>(ok, err)\<close>.\<close>

definition Exists :: "Fs \<Rightarrow> string \<Rightarrow> bool \<times> ext_error option" where
  "Exists f p =
    (case Stat f p of
       Inr fi \<Rightarrow> (True, None)
     | Inl e \<Rightarrow> if e = ErrNotExist then (False, None) else (False, Some e))"

definition DirExists :: "Fs \<Rightarrow> string \<Rightarrow> bool \<times> ext_error option" where
  "DirExists f p =
    (case Stat f p of
       Inr fi \<Rightarrow> (fi_IsDir fi, None)
     | Inl e \<Rightarrow> if e = ErrNotExist then (False, None) else (False, Some e))"

definition ReadFile :: "Fs \<Rightarrow> string \<Rightarrow> ext_error + string" where
  "ReadFile f p =
    (case fault f OpReadFile p of
       Some e \<Rightarrow> Inl e
     | None \<Rightarrow>
        (case map_of (nodes f) p of
           None \<Rightarrow> Inl ErrNotExist
         | Some DirNode \<Rightarrow> Inl (ExtError ''is a directory'')
         | Some (FileNode d) \<Rightarrow> Inr d))"

text \<open>
  Why a write at \<open>p\<close> fails, if it does: a fault of the environment, or \<open>p\<close> is a directory.
\<close>

definition writeErr :: "Fs \<Rightarrow> string \<Rightarrow> ext_error option" where
  "writeErr f p =
    (case fault f OpWriteFile p of
       Some e \<Rightarrow> Some e
     | None \<Rightarrow> if map_of (nodes f) p = Some DirNode then Some (ExtError ''is a directory'') else None)"

text \<open>\<^verbatim>\<open>afero.WriteFile\<close>: the error and the filesystem after the call.\<close>

definition WriteFile :: "Fs \<Rightarrow> string \<Rightarrow> string \<Rightarrow> ext_error option \<times> Fs" where
  "WriteFile f p d =
    (case writeErr f p of
       Some e \<Rightarrow> (Some e, f)
     | None \<Rightarrow> (None, f\<lparr>nodes := AList.update p (FileNode d) (nodes f)\<rparr>))"

definition MkdirAll :: "Fs \<Rightarrow> string \<Rightarrow> ext_error option \<times> Fs" where
  "MkdirAll f p =
    (case fault f OpMkdir p of
       Some e \<Rightarrow> (Some e, f)
     | None \<Rightarrow>
        (case map_of (nodes f) p of
           Some DirNode \<Rightarrow> (None, f)
         | Some (FileNode d) \<Rightarrow> (Some (ExtError ''not a directory''), f)
         | None \<Rightarrow> (None, f\<lparr>nodes := AList.update p DirNode (nodes f)\<rparr>)))"

text \<open>The name of \<open>q\<close> inside the directory \<open>p\<close>, when \<open>q\<close> is an entry of \<open>p\<close>.\<close>

definition childName :: "string \<Rightarrow> string \<Rightarrow> string option" where
  "childName p q =
    (let pre = (if p = [slash] then p else p @ [slash]); name = drop (length pre) q in
     if take (length pre) q = pre \<and> name \<noteq> [] \<and> slash \<notin> set name then Some name else None)"

fun dirEntries :: "string \<Rightarrow> (string \<times> node) list \<Rightarrow> FileInfo list" where
  "dirEntries p [] = []"
| "dirEntries p ((q, n) # rest) =
    (case childName p q of
       None \<Rightarrow> dirEntries p rest
     | Some name \<Rightarrow> \<lparr>fi_Name = name, fi_IsDir = (n = DirNode)\<rparr> # dirEntries p rest)"

text \<open>\<^verbatim>\<open>afero.ReadDir\<close>: the entries of a directory, sorted by name.\<close>

definition ReadDir :: "Fs \<Rightarrow> string \<Rightarrow> ext_error + FileInfo list" where
  "ReadDir f p =
    (case fault f OpReadDir p of
       Some e \<Rightarrow> Inl e
     | None \<Rightarrow>
        (case map_of (nodes f) p of
           None \<Rightarrow> Inl ErrNotExist
         | Some (FileNode d) \<Rightarrow> Inl (ExtError ''not a directory'')
         | Some DirNode \<Rightarrow> Inr (sort_key fi_Name (dirEntries p (AList.clearjunk (nodes f))))))"

section \<open>The store\<close>

text \<open>
  The collaborators of the store that are not in \<^verbatim>\<open>allow.go\<close> are parameters: the
  Unicode tables, the YAML codec (\<^verbatim>\<open>yaml.Unmarshal\<close>, \<^verbatim>\<open>Encoder.Encode\<close>), the JSON
  cleaner \<^verbatim>\<open>jsn.Clear\<close> and \<^verbatim>\<open>json.MarshalIndent\<close>, the canonicalizing parser
  (\<^verbatim>\<open>QueryDocument.Parse\<close> followed by \<^verbatim>\<open>WriteTo\<close>), \<^verbatim>\<open>graph.FastParse\<close>, of which the
  store reads the operation name only, and \<^verbatim>\<open>parseGQLFile\<close>, declared in another file
  of the package, which reads a raw GraphQL file. Every theorem below holds for any
  collaborators.
\<close>

record deps =
  tables :: unicode
  yamlUnmarshal :: "string \<Rightarrow> Item \<times> ext_error option"
  yamlEncode :: "Item \<Rightarrow> ext_error + string"
  jsnClear :: "string \<Rightarrow> ext_error + string"
  jsonMarshalIndent :: "string \<Rightarrow> ext_error + string"
  qdParse :: "string \<Rightarrow> ext_error + string"
  FastParse :: "string \<Rightarrow> ext_error + string"
  parseGQLFile :: "Fs \<Rightarrow> string \<Rightarrow> ext_error + string"

text \<open>
  The struct \<^verbatim>\<open>List\<close>. \<open>saveChan\<close> is \<open>None\<close> for the nil channel of a read-only store;
  otherwise it holds the records sent by \<^verbatim>\<open>Set\<close> that the writer has not yet received.
\<close>

record List =
  saveChan :: "Item list option"
  fs :: Fs

record Config =
  Log :: bool

text \<open>
  The codecs reach the exported fields of an \<^verbatim>\<open>Item\<close> only: decoding leaves the
  unexported \<open>key\<close> and \<open>frags\<close> at their zero values, and encoding does not see them.
\<close>

definition exported :: "Item \<Rightarrow> Item" where
  "exported d = d\<lparr>key := [], frags := []\<rparr>"

definition itemFromYaml :: "deps \<Rightarrow> Fs \<Rightarrow> string \<Rightarrow> Item \<times> error option" where
  "itemFromYaml E f filePath =
    (case ReadFile f filePath of
       Inl e \<Rightarrow> (zeroItem, Some (ErrExternal e))
     | Inr b \<Rightarrow>
        (case yamlUnmarshal E b of
           (d, Some e) \<Rightarrow> (exported d, Some (ErrExternal e))
         | (d, None) \<Rightarrow> (exported d, None)))"

definition splitName :: "string \<Rightarrow> string \<times> string" where
  "splitName v =
    (let i = LastIndexByte v (CHR ''.'') in
     if i = - 1 then ([], v)
     else if i < int (length v) - 1 then (take (nat i) v, drop (nat (i + 1)) v)
     else ([], []))"

definition itemFromGQL :: "deps \<Rightarrow> Fs \<Rightarrow> string \<Rightarrow> Item \<times> error option" where
  "itemFromGQL E f filePath =
    (let fn = Base filePath;
         fn = TrimSuffix fn (Ext fn);
         (queryNS, queryName) = splitName fn
     in if queryName = [] then (zeroItem, Some (ErrInvalidFilename filePath))
        else
          (case parseGQLFile E f filePath of
             Inl e \<Rightarrow> (zeroItem, Some (ErrExternal e))
           | Inr query \<Rightarrow>
              (let item = zeroItem\<lparr>Namespace := queryNS, Name := queryName, Query := query\<rparr>
               in (item\<lparr>key := ToLower (tables E) (Name item)\<rparr>, None))))"

definition Get :: "deps \<Rightarrow> List \<Rightarrow> string \<Rightarrow> Item \<times> error option" where
  "Get E al filePath =
    (let ext = Ext filePath in
     if ext = ''.gql'' \<or> ext = ''.graphql'' then itemFromGQL E (fs al) filePath
     else if ext = ''.yml'' \<or> ext = ''.yaml'' then itemFromYaml E (fs al) filePath
     else (zeroItem, Some ErrUnknownFileType))"

text \<open>
  One probe of \<^verbatim>\<open>GetByName\<close>: \<^verbatim>\<open>if ok, err := afero.Exists(al.fs, fn); ok { return
  al.Get(fn) } else if err != nil { return item, err }\<close>, then the rest of the function.
\<close>

definition probe ::
  "deps \<Rightarrow> List \<Rightarrow> string \<Rightarrow> (Item \<times> error option) \<Rightarrow> Item \<times> error option" where
  "probe E al fn rest =
    (case Exists (fs al) fn of
       (True, err) \<Rightarrow> Get E al fn
     | (False, Some e) \<Rightarrow> (zeroItem, Some (ErrExternal e))
     | (False, None) \<Rightarrow> rest)"

definition GetByName :: "deps \<Rightarrow> List \<Rightarrow> string \<Rightarrow> Item \<times> error option" where
  "GetByName E al filePath =
    (let fpath = Join [queryPath, filePath] in
     probe E al (fpath @ ''.gql'')
       (probe E al (fpath @ ''.graphql'')
          (probe E al (fpath @ ''.yml'')
             (probe E al (fpath @ ''.yaml'')
                (zeroItem, None)))))"

text \<open>The loop of \<^verbatim>\<open>Load\<close> over the directory entries; \<open>items\<close> is the slice built so far.\<close>

fun loadLoop :: "deps \<Rightarrow> List \<Rightarrow> FileInfo list \<Rightarrow> Item list \<Rightarrow> Item list \<times> error option" where
  "loadLoop E al [] items = (items, None)"
| "loadLoop E al (fi # files) items =
    (if fi_IsDir fi then loadLoop E al files items
     else
       (case Get E al (Join [queryPath, fi_Name fi]) of
          (item, Some err) \<Rightarrow>
            if err = ErrUnknownFileType then loadLoop E al files items
            else ([], Some err)
        | (item, None) \<Rightarrow> loadLoop E al files (items @ [item])))"

definition Load :: "deps \<Rightarrow> List \<Rightarrow> Item list \<times> error option" where
  "Load E al =
    (case DirExists (fs al) queryPath of
       (False, err) \<Rightarrow> ([], None)
     | (True, Some e) \<Rightarrow> ([], Some (ErrAllowList e))
     | (True, None) \<Rightarrow>
        (case ReadDir (fs al) queryPath of
           Inl e \<Rightarrow> ([], Some (ErrAllowList e))
         | Inr files \<Rightarrow> loadLoop E al files []))"

text \<open>
  \<^verbatim>\<open>Set\<close> returns its error and the store: the send \<^verbatim>\<open>al.saveChan <- item\<close> appends the
  record to the queue of the writer.
\<close>

definition Set ::
  "deps \<Rightarrow> List \<Rightarrow> string \<Rightarrow> string \<Rightarrow> Metadata \<Rightarrow> string \<Rightarrow> (error option \<times> List) result" where
  "Set E al vars query md namespace =
    (case saveChan al of
       None \<Rightarrow> Returns (Some ErrReadOnly, al)
     | Some queue \<Rightarrow>
        if query = [] then Returns (Some ErrEmptyQuery, al)
        else
          (case parseQuery (tables E) query of
             Panics \<Rightarrow> Panics
           | Returns (item, Some err) \<Rightarrow> Returns (Some err, al)
           | Returns (item, None) \<Rightarrow>
              (let item = item\<lparr>Namespace := namespace\<rparr>;
                   item = item\<lparr>Vars := vars\<rparr>;
                   item = item\<lparr>Metadata := md\<rparr>
               in Returns (None, al\<lparr>saveChan := Some (queue @ [item])\<rparr>))))"

text \<open>The first statements of \<^verbatim>\<open>saveItem\<close>: the variables are cleaned and re-indented.\<close>

definition cleanVars :: "deps \<Rightarrow> Item \<Rightarrow> ext_error + Item" where
  "cleanVars E item =
    (if Vars item \<noteq> [] then
       (case jsnClear E (Vars item) of
          Inl e \<Rightarrow> Inl e
        | Inr buf \<Rightarrow>
           (case jsonMarshalIndent E buf of
              Inl e \<Rightarrow> Inl e
            | Inr vj \<Rightarrow> Inr (item\<lparr>Vars := vj\<rparr>)))
     else Inr item)"

definition fragFile :: "string \<Rightarrow> Frag \<Rightarrow> string" where
  "fragFile namespace fv =
    Join [fragmentPath,
      if namespace \<noteq> [] then namespace @ ''.'' @ Frag_Name fv else Frag_Name fv]"

text \<open>The loop of \<^verbatim>\<open>saveItem\<close> over the fragments; it returns at the first failed write.\<close>

fun writeFrags :: "Fs \<Rightarrow> string \<Rightarrow> Frag list \<Rightarrow> error option \<times> Fs" where
  "writeFrags f namespace [] = (None, f)"
| "writeFrags f namespace (fv # rest) =
    (case WriteFile f (fragFile namespace fv) (Frag_Value fv) of
       (Some e, f') \<Rightarrow> (Some (ErrExternal e), f')
     | (None, f') \<Rightarrow> writeFrags f' namespace rest)"

definition itemFile :: "Item \<Rightarrow> string" where
  "itemFile item =
    Join [queryPath,
      if Namespace item \<noteq> [] then Namespace item @ ''.'' @ Name item @ ''.yaml''
      else Name item @ ''.yaml'']"

text \<open>\<^verbatim>\<open>saveItem\<close> and \<^verbatim>\<open>save\<close> return their error and the filesystem they leave.\<close>

definition saveItem :: "deps \<Rightarrow> List \<Rightarrow> Item \<Rightarrow> bool \<Rightarrow> error option \<times> Fs" where
  "saveItem E al item ow =
    (case cleanVars E item of
       Inl e \<Rightarrow> (Some (ErrExternal e), fs al)
     | Inr item \<Rightarrow>
        (case yamlEncode E (exported item) of
           Inl e \<Rightarrow> (Some (ErrExternal e), fs al)
         | Inr b \<Rightarrow>
            (case WriteFile (fs al) (itemFile item) b of
               (Some e, f') \<Rightarrow> (Some (ErrExternal e), f')
             | (None, f') \<Rightarrow> writeFrags f' (Namespace item) (frags item))))"

definition save :: "deps \<Rightarrow> List \<Rightarrow> Item \<Rightarrow> error option \<times> Fs" where
  "save E al item =
    (case qdParse E (Query item) of
       Inl e \<Rightarrow> (Some (ErrExternal e), fs al)
     | Inr query \<Rightarrow>
        (case FastParse E query of
           Inl e \<Rightarrow> (Some (ErrExternal e), fs al)
         | Inr hName \<Rightarrow>
            if hName = [] then (Some ErrNoQueryName, fs al)
            else
              (let item = item\<lparr>Name := hName\<rparr>;
                   item = item\<lparr>key := ToLower (tables E) (Name item)\<rparr>
               in saveItem E al item True)))"

text \<open>
  One turn of the goroutine started by \<^verbatim>\<open>New\<close>: it receives the next record, saves it,
  and prints the error of \<^verbatim>\<open>save\<close> when there is a logger. The second component is what
  the logger has printed.
\<close>

definition writer :: "deps \<Rightarrow> Config \<Rightarrow> List \<times> error list \<Rightarrow> List \<times> error list" where
  "writer E conf w =
    (case w of (al, logged) \<Rightarrow>
      (case saveChan al of
         Some (v # queue) \<Rightarrow>
           (case save E (al\<lparr>saveChan := Some queue\<rparr>) v of
              (Some err, f') \<Rightarrow>
                (al\<lparr>saveChan := Some queue, fs := f'\<rparr>,
                 if Log conf then logged @ [err] else logged)
            | (None, f') \<Rightarrow> (al\<lparr>saveChan := Some queue, fs := f'\<rparr>, logged))
       | _ \<Rightarrow> (al, logged)))"

definition NewReadOnly :: "Fs \<Rightarrow> List option \<times> error option" where
  "NewReadOnly f = (Some \<lparr>saveChan = None, fs = f\<rparr>, None)"

definition New :: "Config \<Rightarrow> Fs option \<Rightarrow> List option \<times> error option" where
  "New conf fopt =
    (case fopt of
       None \<Rightarrow> (None, Some ErrNoFilesystem)
     | Some f \<Rightarrow>
        (let f = snd (MkdirAll f queryPath);
             f = snd (MkdirAll f fragmentPath)
         in (Some \<lparr>saveChan = Some [], fs = f\<rparr>, None)))"

section \<open>The flush rule\<close>

text \<open>
  The words of the specification for the flush rule. \<open>allSpace s\<close>: \<open>s\<close> is a sequence of
  encoded white-space runes. \<open>endsAtLast x v c\<close>: \<open>c\<close> is \<open>v\<close> cut to end exactly at its
  last \<open>x\<close>, and is empty when \<open>v\<close> has no \<open>x\<close>.
\<close>

inductive allSpace :: "string \<Rightarrow> bool" where
  allSpace_Nil: "allSpace []"
| allSpace_Cons:
    "IsSpace (fst (DecodeRune e)) \<Longrightarrow> snd (DecodeRune e) = length e \<Longrightarrow> allSpace s
     \<Longrightarrow> allSpace (e @ s)"

definition startsWithSpace :: "string \<Rightarrow> bool" where
  "startsWithSpace t = (t \<noteq> [] \<and> IsSpace (fst (DecodeRune t)))"

definition endsWithSpace :: "string \<Rightarrow> bool" where
  "endsWithSpace t = (t \<noteq> [] \<and> IsSpace (fst (DecodeLastRune t)))"

definition endsAtLast :: "char \<Rightarrow> string \<Rightarrow> string \<Rightarrow> bool" where
  "endsAtLast x v c =
    (if x \<in> set v then \<exists>tail. v = c @ tail \<and> x \<notin> set tail \<and> c \<noteq> [] \<and> last c = x
     else c = [])"

text \<open>Tables for evaluation: no letter, digit or case mapping beyond ASCII.\<close>

definition asciiOnly :: unicode where
  "asciiOnly = \<lparr>uniIsLetter = (\<lambda>ch. False), uniIsDigit = (\<lambda>ch. False), uniToLower = (\<lambda>s. s)\<rparr>"

lemma RuneError_not_space: "\<not> IsSpace RuneError"
  by (simp add: IsSpace_def RuneError_def)

lemma runeSize_le4: "runeSize x \<le> 4"
  by (simp add: runeSize_def)

lemma runeSize_cases:
  obtains "runeSize x = 0" | "runeSize x = 1" | "runeSize x = 2" | "runeSize x = 3" | "runeSize x = 4"
  using runeSize_le4 [of x] by (cases "runeSize x = 0"; cases "runeSize x = 1"; cases "runeSize x = 2"; cases "runeSize x = 3"; cases "runeSize x = 4") auto

lemma DecodeRune_sz0: "p \<noteq> [] \<Longrightarrow> runeSize (byte (p ! 0)) = 0 \<Longrightarrow> DecodeRune p = (RuneError, 1)"
  by (cases p) (simp_all add: DecodeRune_def Let_def)

lemma DecodeRune_sz1: "p \<noteq> [] \<Longrightarrow> runeSize (byte (p ! 0)) = 1 \<Longrightarrow> DecodeRune p = (byte (p ! 0), 1)"
  by (cases p) (simp_all add: DecodeRune_def Let_def)

lemma DecodeRune_short:
  "p \<noteq> [] \<Longrightarrow> 2 \<le> runeSize (byte (p ! 0)) \<Longrightarrow> length p < runeSize (byte (p ! 0))
   \<Longrightarrow> DecodeRune p = (RuneError, 1)"
  by (cases p) (simp_all add: DecodeRune_def Let_def)

lemma DecodeRune_sz2:
  "runeSize (byte (p ! 0)) = 2 \<Longrightarrow> 2 \<le> length p \<Longrightarrow>
   DecodeRune p =
     (if byte (p ! 1) < acceptLo (byte (p ! 0)) \<or> acceptHi (byte (p ! 0)) < byte (p ! 1)
      then (RuneError, 1)
      else ((byte (p ! 0) - 0xC0) * 64 + contBits (p ! 1), 2))"
  by (auto simp: DecodeRune_def Let_def)

lemma DecodeRune_sz3:
  "runeSize (byte (p ! 0)) = 3 \<Longrightarrow> 3 \<le> length p \<Longrightarrow>
   DecodeRune p =
     (if byte (p ! 1) < acceptLo (byte (p ! 0)) \<or> acceptHi (byte (p ! 0)) < byte (p ! 1)
         \<or> \<not> isCont (p ! 2)
      then (RuneError, 1)
      else ((byte (p ! 0) - 0xE0) * 4096 + contBits (p ! 1) * 64 + contBits (p ! 2), 3))"
  by (auto simp: DecodeRune_def Let_def)

lemma DecodeRune_sz4:
  "runeSize (byte (p ! 0)) = 4 \<Longrightarrow> 4 \<le> length p \<Longrightarrow>
   DecodeRune p =
     (if byte (p ! 1) < acceptLo (byte (p ! 0)) \<or> acceptHi (byte (p ! 0)) < byte (p ! 1)
         \<or> \<not> isCont (p ! 2) \<or> \<not> isCont (p ! 3)
      then (RuneError, 1)
      else ((byte (p ! 0) - 0xF0) * 262144 + contBits (p ! 1) * 4096 + contBits (p ! 2) * 64
              + contBits (p ! 3), 4))"
  by (auto simp: DecodeRune_def Let_def)

lemma space_size:
  assumes "IsSpace (fst (DecodeRune s))"
  shows "s \<noteq> [] \<and> 1 \<le> runeSize (byte (s ! 0)) \<and> runeSize (byte (s ! 0)) \<le> length s
         \<and> snd (DecodeRune s) = runeSize (byte (s ! 0))"
proof -
  have ne: "s \<noteq> []" using assms RuneError_not_space by (cases s) auto
  have len: "1 \<le> length s" using ne by (cases s) auto
  have long: "runeSize (byte (s ! 0)) \<le> length s"
  proof (rule ccontr)
    assume "\<not> runeSize (byte (s ! 0)) \<le> length s"
    then have "DecodeRune s = (RuneError, 1)" using ne len by (intro DecodeRune_short) auto
    then show False using assms RuneError_not_space by simp
  qed
  show ?thesis
  proof (cases "byte (s ! 0)" rule: runeSize_cases)
    case 1
    then show ?thesis using assms RuneError_not_space DecodeRune_sz0 [OF ne] by simp
  next
    case 2
    then show ?thesis using ne len DecodeRune_sz1 [OF ne] by simp
  next
    case 3
    then show ?thesis using assms ne long RuneError_not_space DecodeRune_sz2 [of s]
      by (simp split: if_splits)
  next
    case 4
    then show ?thesis using assms ne long RuneError_not_space DecodeRune_sz3 [of s]
      by (simp split: if_splits)
  next
    case 5
    then show ?thesis using assms ne long RuneError_not_space DecodeRune_sz4 [of s]
      by (simp split: if_splits)
  qed
qed

lemma DecodeRune_cong:
  assumes ne: "p \<noteq> []" and n: "n = runeSize (byte (p ! 0))" and le: "n \<le> length p"
    and tk: "take n q = take n p" and pos: "1 \<le> n"
  shows "DecodeRune q = DecodeRune p"
proof -
  have nth: "\<And>i. i < n \<Longrightarrow> q ! i = p ! i"
    using tk by (metis nth_take)
  have "length (take n q) = length (take n p)" using tk by simp
  then have lq: "n \<le> length q" using le by simp
  have q0: "q ! 0 = p ! 0" using nth [of 0] pos by simp
  have qne: "q \<noteq> []" using lq pos by auto
  show ?thesis
  proof (cases "byte (p ! 0)" rule: runeSize_cases)
    case 1
    then show ?thesis using n pos by simp
  next
    case 2
    then show ?thesis using DecodeRune_sz1 [OF ne] DecodeRune_sz1 [OF qne] q0 by simp
  next
    case 3
    then show ?thesis
      using n le lq q0 nth [of 1] DecodeRune_sz2 [of p] DecodeRune_sz2 [of q] by simp
  next
    case 4
    then show ?thesis
      using n le lq q0 nth [of 1] nth [of 2] DecodeRune_sz3 [of p] DecodeRune_sz3 [of q] by simp
  next
    case 5
    then show ?thesis
      using n le lq q0 nth [of 1] nth [of 2] nth [of 3] DecodeRune_sz4 [of p] DecodeRune_sz4 [of q]
      by simp
  qed
qed

lemma DecodeRune_append:
  assumes "IsSpace (fst (DecodeRune xs))"
  shows "DecodeRune (xs @ ys) = DecodeRune xs"
  using space_size [OF assms] by (intro DecodeRune_cong [where n = "runeSize (byte (xs ! 0))"]) simp_all

lemma DecodeRune_take:
  assumes "IsSpace (fst (DecodeRune s))"
  shows "DecodeRune (take (snd (DecodeRune s)) s) = DecodeRune s"
  using space_size [OF assms] by (intro DecodeRune_cong [where n = "runeSize (byte (s ! 0))"]) simp_all

lemma allSpace_snoc:
  assumes "allSpace l" and "IsSpace (fst (DecodeRune e))" and "snd (DecodeRune e) = length e"
  shows "allSpace (l @ e)"
  using assms
proof (induction l rule: allSpace.induct)
  case allSpace_Nil
  have "allSpace (e @ [])" using allSpace_Nil allSpace.allSpace_Nil by (intro allSpace_Cons) auto
  then show ?case by simp
next
  case (allSpace_Cons e' s)
  have "allSpace (s @ e)" using allSpace_Cons.IH allSpace_Cons.prems by simp
  with allSpace_Cons.hyps(1,2) have "allSpace (e' @ (s @ e))"
    by (rule allSpace.allSpace_Cons)
  then show ?case by simp
qed

lemma TrimLeftSpace_split: "\<exists>l. s = l @ TrimLeftSpace s \<and> allSpace l"
proof (induction s rule: TrimLeftSpace.induct)
  case (1 s)
  show ?case
  proof (cases "s \<noteq> [] \<and> IsSpace (fst (DecodeRune s))")
    case True
    let ?w = "snd (DecodeRune s)"
    obtain l where l: "drop ?w s = l @ TrimLeftSpace (drop ?w s)" and al: "allSpace l"
      using "1.IH" True by blast
    have sp: "IsSpace (fst (DecodeRune s))" using True by simp
    have w: "?w \<le> length s" using space_size [OF sp] by simp
    have e1: "IsSpace (fst (DecodeRune (take ?w s)))" using DecodeRune_take [OF sp] sp by simp
    have e2: "snd (DecodeRune (take ?w s)) = length (take ?w s)"
      using DecodeRune_take [OF sp] w by simp
    have "allSpace (take ?w s @ l)" using e1 e2 al by (rule allSpace_Cons)
    moreover have "s = (take ?w s @ l) @ TrimLeftSpace s"
    proof -
      have ts: "TrimLeftSpace s = TrimLeftSpace (drop ?w s)"
        using True by (subst TrimLeftSpace.simps) simp
      show ?thesis using l ts by (metis append_assoc append_take_drop_id)
    qed
    ultimately show ?thesis by blast
  next
    case False
    then have "TrimLeftSpace s = s" by (subst TrimLeftSpace.simps) auto
    then show ?thesis using allSpace_Nil by (intro exI [of _ "[]"]) simp
  qed
qed

lemma TrimLeftSpace_start: "\<not> startsWithSpace (TrimLeftSpace s)"
proof (induction s rule: TrimLeftSpace.induct)
  case (1 s)
  show ?case
  proof (cases "s \<noteq> [] \<and> IsSpace (fst (DecodeRune s))")
    case True
    then have "TrimLeftSpace s = TrimLeftSpace (drop (snd (DecodeRune s)) s)"
      by (subst TrimLeftSpace.simps) simp
    then show ?thesis using "1.IH" True by simp
  next
    case False
    then have "TrimLeftSpace s = s" by (subst TrimLeftSpace.simps) auto
    then show ?thesis using False by (auto simp: startsWithSpace_def)
  qed
qed

lemma DecodeLastRune_suffix:
  assumes ne: "s \<noteq> []" and sp: "IsSpace (fst (DecodeLastRune s))"
  shows "snd (DecodeLastRune s) \<le> length s
         \<and> DecodeRune (drop (length s - snd (DecodeLastRune s)) s) = DecodeLastRune s
         \<and> snd (DecodeLastRune s) = length (drop (length s - snd (DecodeLastRune s)) s)"
proof (cases "byte (s ! (length s - 1)) < 0x80")
  case True
  then have d: "DecodeLastRune s = (byte (s ! (length s - 1)), 1)"
    using ne by (simp add: DecodeLastRune_def Let_def)
  have dr: "drop (length s - 1) s = [s ! (length s - 1)]"
    using ne by (metis append_butlast_last_id butlast_conv_take drop_all append_eq_conv_conj last_conv_nth
        append_Nil length_butlast order_refl)
  have rs: "runeSize (byte (s ! (length s - 1))) = 1" using True by (simp add: runeSize_def)
  have "DecodeRune [s ! (length s - 1)] = (byte (s ! (length s - 1)), 1)"
    using DecodeRune_sz1 [of "[s ! (length s - 1)]"] rs by simp
  then show ?thesis using d dr ne by (cases s) auto
next
  case False
  let ?st = "backToStart s (length s - 4) (length s - 1)"
  obtain r size where dec: "DecodeRune (drop ?st s) = (r, size)" by (cases "DecodeRune (drop ?st s)")
  have eq: "?st + size = length s"
  proof (rule ccontr)
    assume "?st + size \<noteq> length s"
    then have "DecodeLastRune s = (RuneError, 1)"
      using False ne dec by (simp add: DecodeLastRune_def Let_def)
    then show False using sp RuneError_not_space by simp
  qed
  then have d: "DecodeLastRune s = (r, size)"
    using False ne dec by (simp add: DecodeLastRune_def Let_def)
  have "length s - size = ?st" using eq by simp
  then show ?thesis using d dec eq by simp
qed

lemma TrimRightSpace_split: "\<exists>r. s = TrimRightSpace s @ r \<and> allSpace r"
proof (induction s rule: TrimRightSpace.induct)
  case (1 s)
  show ?case
  proof (cases "s \<noteq> [] \<and> IsSpace (fst (DecodeLastRune s))")
    case True
    let ?w = "snd (DecodeLastRune s)"
    let ?k = "length s - ?w"
    obtain r where r: "take ?k s = TrimRightSpace (take ?k s) @ r" and al: "allSpace r"
      using "1.IH" True by blast
    have suf: "DecodeRune (drop ?k s) = DecodeLastRune s" "?w = length (drop ?k s)"
      using DecodeLastRune_suffix [of s] True by auto
    have "allSpace (r @ drop ?k s)"
      using al True suf by (intro allSpace_snoc) auto
    moreover have "s = TrimRightSpace s @ (r @ drop ?k s)"
    proof -
      have ts: "TrimRightSpace s = TrimRightSpace (take ?k s)"
        using True by (subst TrimRightSpace.simps) simp
      show ?thesis using r ts by (metis append_assoc append_take_drop_id)
    qed
    ultimately show ?thesis by blast
  next
    case False
    then have "TrimRightSpace s = s" by (subst TrimRightSpace.simps) auto
    then show ?thesis using allSpace_Nil by (intro exI [of _ "[]"]) simp
  qed
qed

lemma TrimRightSpace_end: "\<not> endsWithSpace (TrimRightSpace s)"
proof (induction s rule: TrimRightSpace.induct)
  case (1 s)
  show ?case
  proof (cases "s \<noteq> [] \<and> IsSpace (fst (DecodeLastRune s))")
    case True
    then have "TrimRightSpace s = TrimRightSpace (take (length s - snd (DecodeLastRune s)) s)"
      by (subst TrimRightSpace.simps) simp
    then show ?thesis using "1.IH" True by simp
  next
    case False
    then have "TrimRightSpace s = s" by (subst TrimRightSpace.simps) auto
    then show ?thesis using False by (auto simp: endsWithSpace_def)
  qed
qed

lemma TrimSpace_spec:
  "\<exists>l r. s = l @ TrimSpace s @ r \<and> allSpace l \<and> allSpace r
     \<and> \<not> startsWithSpace (TrimSpace s) \<and> \<not> endsWithSpace (TrimSpace s)"
proof -
  let ?m = "TrimLeftSpace s"
  obtain l where l: "s = l @ ?m" and al: "allSpace l" using TrimLeftSpace_split by blast
  obtain r where r: "?m = TrimSpace s @ r" and ar: "allSpace r"
    using TrimRightSpace_split [of ?m] by (auto simp: TrimSpace_def)
  have "\<not> startsWithSpace (TrimSpace s)"
  proof
    assume st: "startsWithSpace (TrimSpace s)"
    then have "DecodeRune (TrimSpace s @ r) = DecodeRune (TrimSpace s)"
      by (intro DecodeRune_append) (simp add: startsWithSpace_def)
    then have "startsWithSpace ?m" using st r by (simp add: startsWithSpace_def)
    then show False using TrimLeftSpace_start by blast
  qed
  moreover have "\<not> endsWithSpace (TrimSpace s)"
    using TrimRightSpace_end [of ?m] by (simp add: TrimSpace_def)
  moreover have "s = l @ TrimSpace s @ r" using l r by simp
  ultimately show ?thesis using al ar by blast
qed

lemma LastIndexByte_none: "LastIndexByte v x = - 1 \<longleftrightarrow> x \<notin> set v"
proof (induction v)
  case Nil
  show ?case by simp
next
  case (Cons a v)
  have "- 1 \<le> LastIndexByte v x" by (induction v) (auto simp: Let_def)
  then show ?case using Cons by (auto simp: Let_def)
qed

lemma LastIndexByte_range: "- 1 \<le> LastIndexByte v x \<and> LastIndexByte v x < int (length v)"
  by (induction v) (auto simp: Let_def)

lemma cut_spec: "endsAtLast x v (take (nat (LastIndexByte v x + 1)) v)"
proof (induction v)
  case Nil
  show ?case by (simp add: endsAtLast_def)
next
  case (Cons a v)
  let ?i = "LastIndexByte v x"
  show ?case
  proof (cases "0 \<le> ?i")
    case True
    then have inv: "x \<in> set v" using LastIndexByte_none [of v x] by auto
    then obtain tail where t: "v = take (nat (?i + 1)) v @ tail" "x \<notin> set tail"
      "take (nat (?i + 1)) v \<noteq> []" "last (take (nat (?i + 1)) v) = x"
      using Cons by (auto simp: endsAtLast_def)
    have "take (nat (LastIndexByte (a # v) x + 1)) (a # v) = a # take (nat (?i + 1)) v"
      using True by (simp add: Let_def nat_add_distrib)
    moreover have "a # v = (a # take (nat (?i + 1)) v) @ tail" using t(1) by simp
    ultimately show ?thesis using t inv
      unfolding endsAtLast_def by (metis last_ConsR list.distinct(1) list.set_intros(2))
  next
    case False
    then have ni: "?i = - 1" using LastIndexByte_range [of v x] by linarith
    then have nv: "x \<notin> set v" using LastIndexByte_none by blast
    show ?thesis
    proof (cases "a = x")
      case True
      then have "take (nat (LastIndexByte (a # v) x + 1)) (a # v) = [x]"
        using ni by (simp add: Let_def)
      then show ?thesis using True nv by (auto simp: endsAtLast_def)
    next
      case False
      then have "take (nat (LastIndexByte (a # v) x + 1)) (a # v) = []"
        using ni by (simp add: Let_def)
      then show ?thesis using False nv by (simp add: endsAtLast_def)
    qed
  qed
qed

lemma val_spec:
  "\<exists>c l r. endsAtLast (CHR ''}'') v c \<and> c = l @ val v @ r \<and> allSpace l \<and> allSpace r
     \<and> \<not> startsWithSpace (val v) \<and> \<not> endsWithSpace (val v)"
  using cut_spec [of "CHR ''}''" v] TrimSpace_spec [of "take (nat (LastIndexByte v (CHR ''}'') + 1)) v"]
  unfolding val_def by blast

lemma TrimSpace_Nil: "TrimSpace [] = []"
  by code_simp

lemma val_no_brace:
  assumes "CHR ''}'' \<notin> set v"
  shows "val v = []"
proof -
  have "LastIndexByte v (CHR ''}'') = - 1" using assms LastIndexByte_none by blast
  then show ?thesis by (simp add: val_def TrimSpace_Nil)
qed

text \<open>
  C6, as amended. In every state, the comment state included, \<^verbatim>\<open>setValue\<close> stores the
  span \<open>v\<close> cut to end exactly at its last closing brace (nothing is left of a span with no
  closing brace) and then stripped of the white space before and after it: \<open>c\<close> is the
  cut span, \<open>l\<close> and \<open>r\<close> the white space removed, \<open>t\<close> the text stored.
\<close>

theorem setValue_flush_rule:
  "\<exists>c l t r. endsAtLast (CHR ''}'') v c \<and> c = l @ t @ r \<and> allSpace l \<and> allSpace r
     \<and> \<not> startsWithSpace t \<and> \<not> endsWithSpace t
     \<and> setValue U expComment v item = (item\<lparr>Comment := t\<rparr>, None)
     \<and> setValue U expVar v item = (item\<lparr>Vars := t\<rparr>, None)
     \<and> setValue U expQuery v item = (item\<lparr>Query := t\<rparr>, None)
     \<and> setValue U expFrag v item =
         (item\<lparr>frags := frags item @ [\<lparr>Frag_Name = fragmentName U t, Frag_Value = t\<rparr>]\<rparr>, None)"
proof -
  obtain c l r where "endsAtLast (CHR ''}'') v c" "c = l @ val v @ r" "allSpace l" "allSpace r"
    "\<not> startsWithSpace (val v)" "\<not> endsWithSpace (val v)"
    using val_spec by blast
  then show ?thesis
    by (intro exI [of _ c] exI [of _ l] exI [of _ "val v"] exI [of _ r]) (simp add: Let_def)
qed

text \<open>
  C6 as stated fails for the comment state: the span \<open>/* a } b */\<close> is not stored whole
  but cut at its closing brace.
\<close>

theorem setValue_comment_counterexample:
  "setValue asciiOnly expComment ''/* a } b */'' zeroItem = (zeroItem\<lparr>Comment := ''/* a }''\<rparr>, None)
   \<and> TrimSpace ''/* a } b */'' = ''/* a } b */''
   \<and> Comment (fst (setValue asciiOnly expComment ''/* a } b */'' zeroItem)) \<noteq> TrimSpace ''/* a } b */''"
  by code_simp

text \<open>
  C7, as amended. \<^verbatim>\<open>parseQuery\<close> returns a nil error for every input, and it does
  not panic; a flushed span with no closing brace leaves the field of a braced state
  empty (for a fragment, an entry with an empty value is appended).
\<close>

theorem parseQuery_never_fails:
  "(\<exists>item. parseQuery U b = Returns (item, None))
   \<and> (CHR ''}'' \<notin> set v \<longrightarrow>
        setValue U expVar v item0 = (item0\<lparr>Vars := []\<rparr>, None)
      \<and> setValue U expQuery v item0 = (item0\<lparr>Query := []\<rparr>, None)
      \<and> setValue U expFrag v item0 =
          (item0\<lparr>frags := frags item0 @ [\<lparr>Frag_Name = fragmentName U [], Frag_Value = []\<rparr>]\<rparr>,
           None))"
  using parseQuery_ok [of U b] by (auto simp: val_no_brace Let_def)

theorem parseQuery_never_fails_witness:
  "(\<exists>item. parseQuery asciiOnly ''query q'' = Returns (item, None))
   \<and> CHR ''}'' \<notin> set ''query q''
   \<and> setValue asciiOnly expQuery ''query q'' zeroItem = (zeroItem\<lparr>Query := []\<rparr>, None)"
  using parseQuery_never_fails [of asciiOnly "''query q''" "''query q''" zeroItem] by simp

lemma parseQuery_query_q: "parseQuery asciiOnly ''query q'' = Returns (zeroItem, None)"
  by code_simp

text \<open>
  C7 as stated fails: no input makes \<^verbatim>\<open>parseQuery\<close> return an error. The text
  \<open>query q\<close>, whose query span has no closing brace, gives the zero record and a nil error.
\<close>

theorem parseQuery_error_counterexample:
  "parseQuery asciiOnly ''query q'' = Returns (zeroItem, None)
   \<and> \<not> (\<exists>U b item e. parseQuery U b = Returns (item, Some e))"
proof -
  have "\<not> (\<exists>U b item e. parseQuery U b = Returns (item, Some e))"
  proof
    assume "\<exists>U b item e. parseQuery U b = Returns (item, Some e)"
    then obtain U b item e where "parseQuery U b = Returns (item, Some e)" by blast
    then show False using parseQuery_ok [of U b] by auto
  qed
  then show ?thesis using parseQuery_query_q by simp
qed

lemma parseQuery_GetUser:
  "parseQuery U ''query GetUser { user(id: $id) { name } } fragment UserFields on User { name }'' =
    Returns (zeroItem\<lparr>Query := ''query GetUser { user(id: $id) { name } }'',
       frags := [\<lparr>Frag_Name = ''UserFields'',
                  Frag_Value = ''fragment UserFields on User { name }''\<rparr>]\<rparr>, None)"
  by code_simp

text \<open>
  C8. The example of the specification: the text is segmented into the query and one
  fragment named \<open>UserFields\<close>, with a nil error.
\<close>

theorem parseQuery_example:
  "\<exists>item. parseQuery U
      ''query GetUser { user(id: $id) { name } } fragment UserFields on User { name }'' =
        Returns (item, None)
     \<and> Query item = ''query GetUser { user(id: $id) { name } }''
     \<and> frags item = [\<lparr>Frag_Name = ''UserFields'',
                        Frag_Value = ''fragment UserFields on User { name }''\<rparr>]"
  using parseQuery_GetUser [of U] by (simp add: zeroItem_def)

section \<open>Stand-ins for evaluation\<close>

text \<open>
  The theorems about the store hold for any collaborators. To evaluate them at concrete
  inputs, the definitions of this section give simple stand-ins: a codec that writes a
  record as its name, a newline and its query; a canonicalizer that changes nothing; a
  name extractor that takes the second token of the query when it is an identifier; and
  filesystems without and with a fault.
\<close>

definition newline :: char where
  "newline = CHR 0x0A"

definition sampleName :: "string \<Rightarrow> string" where
  "sampleName q =
    (case Scan asciiOnly q of
       None \<Rightarrow> []
     | Some (t1, r) \<Rightarrow>
        (case Scan asciiOnly r of
           None \<Rightarrow> []
         | Some (t2, r') \<Rightarrow> if isIdentRune asciiOnly (peek t2) 0 then t2 else []))"

definition sampleDeps :: deps where
  "sampleDeps =
    \<lparr>tables = asciiOnly,
     yamlUnmarshal = (\<lambda>b. (zeroItem\<lparr>Name := takeWhile (\<lambda>c. c \<noteq> newline) b,
                                     Query := drop 1 (dropWhile (\<lambda>c. c \<noteq> newline) b)\<rparr>, None)),
     yamlEncode = (\<lambda>item. Inr (Name item @ [newline] @ Query item)),
     jsnClear = Inr,
     jsonMarshalIndent = Inr,
     qdParse = Inr,
     FastParse = (\<lambda>q. Inr (sampleName q)),
     parseGQLFile = ReadFile\<rparr>"

definition emptyFs :: Fs where
  "emptyFs = \<lparr>nodes = [], fault = (\<lambda>opn p. None)\<rparr>"

definition sampleStore :: List where
  "sampleStore = \<lparr>saveChan = Some [], fs = snd (MkdirAll (snd (MkdirAll emptyFs queryPath)) fragmentPath)\<rparr>"

definition sampleFiles :: Fs where
  "sampleFiles =
    \<lparr>nodes =
       [(''/queries'', DirNode),
        (''/fragments'', DirNode),
        (''/queries/app.GetUser.gql'', FileNode ''query GetUser { id }''),
        (''/queries/archive'', DirNode),
        (''/queries/billing.GetInvoice.yaml'',
           FileNode (''GetInvoice'' @ [newline] @ ''query GetInvoice { total }'')),
        (''/queries/notes.txt'', FileNode ''not a query'')],
     fault = (\<lambda>opn p. None)\<rparr>"

definition sampleFaulty :: Fs where
  "sampleFaulty =
    sampleFiles\<lparr>fault := (\<lambda>opn p.
      if opn = OpReadFile \<and> p = ''/queries/billing.GetInvoice.yaml''
      then Some (ExtError ''input/output error'') else None)\<rparr>"

definition readOnlyStore :: List where
  "readOnlyStore = \<lparr>saveChan = None, fs = sampleFiles\<rparr>"

definition faultyStore :: List where
  "faultyStore = \<lparr>saveChan = None, fs = sampleFaulty\<rparr>"

definition sampleListing :: "FileInfo list" where
  "sampleListing =
    [\<lparr>fi_Name = ''app.GetUser.gql'', fi_IsDir = False\<rparr>,
     \<lparr>fi_Name = ''archive'', fi_IsDir = True\<rparr>,
     \<lparr>fi_Name = ''billing.GetInvoice.yaml'', fi_IsDir = False\<rparr>,
     \<lparr>fi_Name = ''notes.txt'', fi_IsDir = False\<rparr>]"



section \<open>The claims about the store\<close>

text \<open>
  C1. \<^verbatim>\<open>Set\<close> returns (it does not panic), and it returns an error exactly when the
  store is read-only, or the query is empty, or segmentation fails: \<open>ErrReadOnly\<close> in the
  first case, \<open>ErrEmptyQuery\<close> in the second, and the store is left as it was. With a nil
  error the draft, with namespace, variables and metadata attached, has been appended to
  the writer's queue and nothing else has changed: the filesystem is untouched and what
  \<^verbatim>\<open>save\<close> will do with the record has no part in the result.
\<close>

theorem Set_spec:
  "\<exists>err al'. Set E al vars query md namespace = Returns (err, al')
     \<and> ((err \<noteq> None) =
          (saveChan al = None \<or> query = []
           \<or> (\<exists>item e. parseQuery (tables E) query = Returns (item, Some e))))
     \<and> (saveChan al = None \<longrightarrow> err = Some ErrReadOnly)
     \<and> (saveChan al \<noteq> None \<and> query = [] \<longrightarrow> err = Some ErrEmptyQuery)
     \<and> (err \<noteq> None \<longrightarrow> al' = al)
     \<and> (err = None \<longrightarrow>
          (\<exists>queue item. saveChan al = Some queue
             \<and> parseQuery (tables E) query = Returns (item, None)
             \<and> al' = al\<lparr>saveChan :=
                   Some (queue @ [item\<lparr>Namespace := namespace, Vars := vars, Metadata := md\<rparr>])\<rparr>))"
proof -
  obtain item where pq: "parseQuery (tables E) query = Returns (item, None)"
    using parseQuery_ok [of "tables E" query] by blast
  show ?thesis
  proof (cases "saveChan al")
    case None
    then show ?thesis by (simp add: Set_def)
  next
    case (Some queue)
    then show ?thesis using pq by (cases "query = []") (simp_all add: Set_def Let_def)
  qed
qed

lemma parseQuery_sample:
  "parseQuery asciiOnly ''query GetUser { id }'' =
     Returns (zeroItem\<lparr>Query := ''query GetUser { id }''\<rparr>, None)"
  by code_simp

theorem Set_spec_witness:
  "saveChan sampleStore = Some [] \<and> ''query GetUser { id }'' \<noteq> []
   \<and> Set sampleDeps sampleStore ''{}'' ''query GetUser { id }'' zeroMetadata ''app'' =
       Returns (None, sampleStore\<lparr>saveChan :=
         Some [zeroItem\<lparr>Query := ''query GetUser { id }'', Namespace := ''app'', Vars := ''{}''\<rparr>]\<rparr>)
   \<and> Set sampleDeps (sampleStore\<lparr>saveChan := None\<rparr>) ''{}'' ''query GetUser { id }'' zeroMetadata ''app''
         = Returns (Some ErrReadOnly, sampleStore\<lparr>saveChan := None\<rparr>)
   \<and> Set sampleDeps sampleStore ''{}'' [] zeroMetadata ''app'' = Returns (Some ErrEmptyQuery, sampleStore)"
proof -
  have sc: "saveChan sampleStore = Some []" by (simp add: sampleStore_def)
  have tb: "tables sampleDeps = asciiOnly" by (simp add: sampleDeps_def)
  have a: "Set sampleDeps sampleStore ''{}'' ''query GetUser { id }'' zeroMetadata ''app'' =
       Returns (None, sampleStore\<lparr>saveChan :=
         Some [zeroItem\<lparr>Query := ''query GetUser { id }'', Namespace := ''app'', Vars := ''{}''\<rparr>]\<rparr>)"
    using Set_spec [of sampleDeps sampleStore "''{}''" "''query GetUser { id }''" zeroMetadata "''app''"]
      parseQuery_sample sc tb by (auto simp: zeroItem_def)
  have b: "Set sampleDeps (sampleStore\<lparr>saveChan := None\<rparr>) ''{}'' ''query GetUser { id }'' zeroMetadata ''app''
         = Returns (Some ErrReadOnly, sampleStore\<lparr>saveChan := None\<rparr>)"
    using Set_spec [of sampleDeps "sampleStore\<lparr>saveChan := None\<rparr>" "''{}''" "''query GetUser { id }''"
        zeroMetadata "''app''"] by auto
  have c: "Set sampleDeps sampleStore ''{}'' [] zeroMetadata ''app'' = Returns (Some ErrEmptyQuery, sampleStore)"
    using Set_spec [of sampleDeps sampleStore "''{}''" "[]" zeroMetadata "''app''"] sc by auto
  show ?thesis using sc a b c by simp
qed

lemma itemFromGQL_sample:
  "itemFromGQL sampleDeps sampleFiles ''/queries/app.GetUser.gql'' =
    (zeroItem\<lparr>Namespace := ''app'', Name := ''GetUser'', Query := ''query GetUser { id }'',
       key := ''getuser''\<rparr>, None)"
  by code_simp

text \<open>
  C10. For every input the record returned by \<^verbatim>\<open>parseQuery\<close> has an empty \<open>Name\<close>, and
  so an empty \<open>key\<close>; a record read by \<^verbatim>\<open>itemFromGQL\<close> has a name, taken from the file
  name, that is not empty.
\<close>

theorem parseQuery_Name_empty:
  "(\<exists>item. parseQuery U b = Returns (item, None) \<and> Name item = [] \<and> key item = [])
   \<and> (snd (itemFromGQL E f filePath) = None \<longrightarrow> Name (fst (itemFromGQL E f filePath)) \<noteq> [])"
proof -
  have "snd (itemFromGQL E f filePath) = None \<longrightarrow> Name (fst (itemFromGQL E f filePath)) \<noteq> []"
    by (auto simp: itemFromGQL_def Let_def zeroItem_def split: prod.splits sum.splits if_splits)
  then show ?thesis using parseQuery_ok [of U b] by blast
qed

theorem parseQuery_Name_empty_witness:
  "(\<exists>item. parseQuery asciiOnly ''query GetUser { id }'' = Returns (item, None)
      \<and> Name item = [] \<and> key item = [])
   \<and> snd (itemFromGQL sampleDeps sampleFiles ''/queries/app.GetUser.gql'') = None
   \<and> Name (fst (itemFromGQL sampleDeps sampleFiles ''/queries/app.GetUser.gql'')) = ''GetUser''"
  using parseQuery_Name_empty [of asciiOnly "''query GetUser { id }''" sampleDeps sampleFiles
      "''/queries/app.GetUser.gql''"] itemFromGQL_sample
  by simp

lemma Ext_gql: "Ext (p @ ''.gql'') = ''.gql''"
  by (simp add: Ext_def slash_def)

lemma Ext_graphql: "Ext (p @ ''.graphql'') = ''.graphql''"
  by (simp add: Ext_def slash_def)

lemma Ext_yml: "Ext (p @ ''.yml'') = ''.yml''"
  by (simp add: Ext_def slash_def)

lemma Ext_yaml: "Ext (p @ ''.yaml'') = ''.yaml''"
  by (simp add: Ext_def slash_def)

lemma probe_found: "fst (Exists (fs al) fn) \<Longrightarrow> probe E al fn rest = Get E al fn"
  by (cases "Exists (fs al) fn") (simp add: probe_def)

lemma probe_missing: "Exists (fs al) fn = (False, None) \<Longrightarrow> probe E al fn rest = rest"
  by (simp add: probe_def)

text \<open>
  C3. \<^verbatim>\<open>GetByName\<close> probes the composed path with the extensions \<open>.gql\<close>, \<open>.graphql\<close>,
  \<open>.yml\<close>, \<open>.yaml\<close>, in this order, and returns the record decoded from the first file
  that exists (read as GraphQL text for the first two, decoded as a structured record for
  the last two); when none of the four exists it returns the zero record and a nil error.
\<close>

theorem GetByName_probe_order:
  fixes E :: deps and al :: List and filePath :: string
  defines "fpath \<equiv> Join [queryPath, filePath]"
  shows
  "(fst (Exists (fs al) (fpath @ ''.gql''))
      \<longrightarrow> GetByName E al filePath = itemFromGQL E (fs al) (fpath @ ''.gql''))
   \<and> (Exists (fs al) (fpath @ ''.gql'') = (False, None)
      \<and> fst (Exists (fs al) (fpath @ ''.graphql''))
      \<longrightarrow> GetByName E al filePath = itemFromGQL E (fs al) (fpath @ ''.graphql''))
   \<and> (Exists (fs al) (fpath @ ''.gql'') = (False, None)
      \<and> Exists (fs al) (fpath @ ''.graphql'') = (False, None)
      \<and> fst (Exists (fs al) (fpath @ ''.yml''))
      \<longrightarrow> GetByName E al filePath = itemFromYaml E (fs al) (fpath @ ''.yml''))
   \<and> (Exists (fs al) (fpath @ ''.gql'') = (False, None)
      \<and> Exists (fs al) (fpath @ ''.graphql'') = (False, None)
      \<and> Exists (fs al) (fpath @ ''.yml'') = (False, None)
      \<and> fst (Exists (fs al) (fpath @ ''.yaml''))
      \<longrightarrow> GetByName E al filePath = itemFromYaml E (fs al) (fpath @ ''.yaml''))
   \<and> (Exists (fs al) (fpath @ ''.gql'') = (False, None)
      \<and> Exists (fs al) (fpath @ ''.graphql'') = (False, None)
      \<and> Exists (fs al) (fpath @ ''.yml'') = (False, None)
      \<and> Exists (fs al) (fpath @ ''.yaml'') = (False, None)
      \<longrightarrow> GetByName E al filePath = (zeroItem, None))"
proof -
  have g1: "Get E al (fpath @ ''.gql'') = itemFromGQL E (fs al) (fpath @ ''.gql'')"
    by (simp add: Get_def Ext_gql)
  have g2: "Get E al (fpath @ ''.graphql'') = itemFromGQL E (fs al) (fpath @ ''.graphql'')"
    by (simp add: Get_def Ext_graphql)
  have g3: "Get E al (fpath @ ''.yml'') = itemFromYaml E (fs al) (fpath @ ''.yml'')"
    by (simp add: Get_def Ext_yml)
  have g4: "Get E al (fpath @ ''.yaml'') = itemFromYaml E (fs al) (fpath @ ''.yaml'')"
    by (simp add: Get_def Ext_yaml)
  have unfold: "GetByName E al filePath =
      probe E al (fpath @ ''.gql'')
       (probe E al (fpath @ ''.graphql'')
          (probe E al (fpath @ ''.yml'')
             (probe E al (fpath @ ''.yaml'') (zeroItem, None))))"
    by (simp add: GetByName_def fpath_def Let_def)
  show ?thesis
    unfolding unfold using g1 g2 g3 g4 by (simp add: probe_found probe_missing)
qed

lemma Join_sample: "Join [queryPath, ''billing.GetInvoice''] = ''/queries/billing.GetInvoice''"
  by code_simp

lemma Exists_sample:
  "Exists sampleFiles ''/queries/billing.GetInvoice.gql'' = (False, None)"
  "Exists sampleFiles ''/queries/billing.GetInvoice.graphql'' = (False, None)"
  "Exists sampleFiles ''/queries/billing.GetInvoice.yml'' = (False, None)"
  "Exists sampleFiles ''/queries/billing.GetInvoice.yaml'' = (True, None)"
  by code_simp+

lemma itemFromYaml_sample:
  "itemFromYaml sampleDeps sampleFiles ''/queries/billing.GetInvoice.yaml'' =
    (zeroItem\<lparr>Name := ''GetInvoice'', Query := ''query GetInvoice { total }''\<rparr>, None)"
  by code_simp

theorem GetByName_probe_order_witness:
  "Exists (fs readOnlyStore) (Join [queryPath, ''billing.GetInvoice''] @ ''.gql'') = (False, None)
   \<and> Exists (fs readOnlyStore) (Join [queryPath, ''billing.GetInvoice''] @ ''.graphql'') = (False, None)
   \<and> Exists (fs readOnlyStore) (Join [queryPath, ''billing.GetInvoice''] @ ''.yml'') = (False, None)
   \<and> fst (Exists (fs readOnlyStore) (Join [queryPath, ''billing.GetInvoice''] @ ''.yaml''))
   \<and> GetByName sampleDeps readOnlyStore ''billing.GetInvoice'' =
       (zeroItem\<lparr>Name := ''GetInvoice'', Query := ''query GetInvoice { total }''\<rparr>, None)"
  using GetByName_probe_order [where al = readOnlyStore and filePath = "''billing.GetInvoice''" and E = sampleDeps]
    Join_sample Exists_sample itemFromYaml_sample
  by (simp add: readOnlyStore_def)

text \<open>The result of \<^verbatim>\<open>Get\<close> on each entry of a listing that is not a directory.\<close>

definition loaded :: "deps \<Rightarrow> List \<Rightarrow> FileInfo list \<Rightarrow> (Item \<times> error option) list" where
  "loaded E al files =
    map (\<lambda>fi. Get E al (Join [queryPath, fi_Name fi])) (filter (\<lambda>fi. \<not> fi_IsDir fi) files)"

definition aborts :: "Item \<times> error option \<Rightarrow> bool" where
  "aborts r = (snd r \<noteq> None \<and> snd r \<noteq> Some ErrUnknownFileType)"

lemma loadLoop_spec:
  "loadLoop E al files items =
    (case filter aborts (loaded E al files) of
       [] \<Rightarrow> (items @ map fst (filter (\<lambda>r. snd r = None) (loaded E al files)), None)
     | r # rs \<Rightarrow> ([], snd r))"
proof (induction files arbitrary: items)
  case Nil
  show ?case by (simp add: loaded_def)
next
  case (Cons fi files)
  show ?case
  proof (cases "fi_IsDir fi")
    case True
    then have "loaded E al (fi # files) = loaded E al files" by (simp add: loaded_def)
    then show ?thesis using True Cons [of items] by (simp split: list.splits)
  next
    case False
    obtain item err where g: "Get E al (Join [queryPath, fi_Name fi]) = (item, err)"
      by (cases "Get E al (Join [queryPath, fi_Name fi])")
    have ld: "loaded E al (fi # files) = (item, err) # loaded E al files"
      using False g by (simp add: loaded_def)
    show ?thesis
    proof (cases err)
      case None
      then show ?thesis
        using False g ld Cons [of "items @ [item]"] by (simp add: aborts_def split: list.splits)
    next
      case (Some e)
      then show ?thesis
        using False g ld Cons [of items] by (simp add: aborts_def split: list.splits)
    qed
  qed
qed

text \<open>
  C4. \<^verbatim>\<open>Load\<close> returns no items and a nil error when \<open>/queries\<close> is not an existing
  directory, in particular when it does not exist. Otherwise, for the listing \<open>files\<close> of
  the directory, it calls \<^verbatim>\<open>Get\<close> on every entry that is not a directory: if some call
  fails with an error other than the unknown-file-type error, \<^verbatim>\<open>Load\<close> returns the first
  such error and no items; if none does, it returns the records of the calls that
  succeeded, in order, the entries of unknown file type being skipped.
\<close>

theorem Load_spec:
  "(\<not> fst (DirExists (fs al) queryPath) \<longrightarrow> Load E al = ([], None))
   \<and> (Stat (fs al) queryPath = Inl ErrNotExist \<longrightarrow> \<not> fst (DirExists (fs al) queryPath))
   \<and> (DirExists (fs al) queryPath = (True, None) \<and> ReadDir (fs al) queryPath = Inr files \<longrightarrow>
        Load E al =
          (case filter aborts (loaded E al files) of
             [] \<Rightarrow> (map fst (filter (\<lambda>r. snd r = None) (loaded E al files)), None)
           | r # rs \<Rightarrow> ([], snd r)))"
proof -
  have a: "\<not> fst (DirExists (fs al) queryPath) \<longrightarrow> Load E al = ([], None)"
    by (cases "DirExists (fs al) queryPath") (simp add: Load_def)
  have b: "Stat (fs al) queryPath = Inl ErrNotExist \<longrightarrow> \<not> fst (DirExists (fs al) queryPath)"
    by (simp add: DirExists_def)
  have c: "DirExists (fs al) queryPath = (True, None) \<and> ReadDir (fs al) queryPath = Inr files \<longrightarrow>
        Load E al =
          (case filter aborts (loaded E al files) of
             [] \<Rightarrow> (map fst (filter (\<lambda>r. snd r = None) (loaded E al files)), None)
           | r # rs \<Rightarrow> ([], snd r))"
    using loadLoop_spec [of E al files "[]"] by (simp add: Load_def split: list.splits)
  show ?thesis using a b c by blast
qed

lemma ReadDir_sample:
  "ReadDir sampleFiles queryPath = Inr sampleListing"
  "ReadDir sampleFaulty queryPath = Inr sampleListing"
  "DirExists sampleFiles queryPath = (True, None)"
  "DirExists sampleFaulty queryPath = (True, None)"
  "DirExists emptyFs queryPath = (False, None)"
  by code_simp+

lemma loaded_sample:
  "loaded sampleDeps readOnlyStore sampleListing =
    [(zeroItem\<lparr>Namespace := ''app'', Name := ''GetUser'', Query := ''query GetUser { id }'',
        key := ''getuser''\<rparr>, None),
     (zeroItem\<lparr>Name := ''GetInvoice'', Query := ''query GetInvoice { total }''\<rparr>, None),
     (zeroItem, Some ErrUnknownFileType)]"
  "loaded sampleDeps faultyStore sampleListing =
    [(zeroItem\<lparr>Namespace := ''app'', Name := ''GetUser'', Query := ''query GetUser { id }'',
        key := ''getuser''\<rparr>, None),
     (zeroItem, Some (ErrExternal (ExtError ''input/output error''))),
     (zeroItem, Some ErrUnknownFileType)]"
  by code_simp+

theorem Load_spec_witness:
  "\<not> fst (DirExists (fs \<lparr>saveChan = None, fs = emptyFs\<rparr>) queryPath)
   \<and> Load sampleDeps \<lparr>saveChan = None, fs = emptyFs\<rparr> = ([], None)
   \<and> DirExists (fs readOnlyStore) queryPath = (True, None)
   \<and> ReadDir (fs readOnlyStore) queryPath = Inr sampleListing
   \<and> Load sampleDeps readOnlyStore =
       ([zeroItem\<lparr>Namespace := ''app'', Name := ''GetUser'', Query := ''query GetUser { id }'',
           key := ''getuser''\<rparr>,
         zeroItem\<lparr>Name := ''GetInvoice'', Query := ''query GetInvoice { total }''\<rparr>], None)
   \<and> Load sampleDeps faultyStore = ([], Some (ErrExternal (ExtError ''input/output error'')))"
  using Load_spec [where al = "\<lparr>saveChan = None, fs = emptyFs\<rparr>" and E = sampleDeps]
    Load_spec [where al = readOnlyStore and E = sampleDeps and files = sampleListing]
    Load_spec [where al = faultyStore and E = sampleDeps and files = sampleListing]
    ReadDir_sample loaded_sample
  by (simp add: readOnlyStore_def faultyStore_def aborts_def)

text \<open>
  C5 fails on the decode path. Whatever the decoder yields, the record returned by
  \<^verbatim>\<open>itemFromYaml\<close> has an empty \<open>key\<close>: the field is unexported, so the decoder cannot
  set it, and \<^verbatim>\<open>itemFromYaml\<close> does not assign it as \<^verbatim>\<open>itemFromGQL\<close> does. Its \<open>Name\<close>
  is the decoded one.
\<close>

theorem itemFromYaml_key_unset:
  "key (fst (itemFromYaml E f filePath)) = []
   \<and> (ReadFile f filePath = Inr b \<and> yamlUnmarshal E b = (d, None) \<longrightarrow>
        itemFromYaml E f filePath = (exported d, None)
        \<and> Name (fst (itemFromYaml E f filePath)) = Name d)"
  by (auto simp: itemFromYaml_def exported_def zeroItem_def split: sum.splits prod.splits option.splits)

lemma yaml_sample:
  "ReadFile sampleFiles ''/queries/billing.GetInvoice.yaml'' =
     Inr (''GetInvoice'' @ [newline] @ ''query GetInvoice { total }'')"
  "yamlUnmarshal sampleDeps (''GetInvoice'' @ [newline] @ ''query GetInvoice { total }'') =
     (zeroItem\<lparr>Name := ''GetInvoice'', Query := ''query GetInvoice { total }''\<rparr>, None)"
  "ToLower asciiOnly ''GetInvoice'' = ''getinvoice''"
  "Get sampleDeps readOnlyStore ''/queries/billing.GetInvoice.yaml'' =
     itemFromYaml sampleDeps sampleFiles ''/queries/billing.GetInvoice.yaml''"
  by code_simp+

lemma tables_sample: "tables sampleDeps = asciiOnly"
  by (simp add: sampleDeps_def)

theorem itemFromYaml_key_unset_witness:
  "ReadFile sampleFiles ''/queries/billing.GetInvoice.yaml'' =
     Inr (''GetInvoice'' @ [newline] @ ''query GetInvoice { total }'')
   \<and> Name (fst (Get sampleDeps readOnlyStore ''/queries/billing.GetInvoice.yaml'')) = ''GetInvoice''
   \<and> key (fst (Get sampleDeps readOnlyStore ''/queries/billing.GetInvoice.yaml'')) = []
   \<and> ToLower (tables sampleDeps)
        (Name (fst (Get sampleDeps readOnlyStore ''/queries/billing.GetInvoice.yaml''))) = ''getinvoice''"
  using itemFromYaml_key_unset [where E = sampleDeps and f = sampleFiles
      and filePath = "''/queries/billing.GetInvoice.yaml''"
      and b = "''GetInvoice'' @ [newline] @ ''query GetInvoice { total }''"
      and d = "zeroItem\<lparr>Name := ''GetInvoice'', Query := ''query GetInvoice { total }''\<rparr>"]
    yaml_sample tables_sample
  by (simp add: exported_def)

lemma saveItem_fs_only: "saveItem E (al\<lparr>saveChan := q\<rparr>) item ow = saveItem E al item ow"
  by (simp add: saveItem_def cong: sum.case_cong)

lemma save_fs_only: "save E (al\<lparr>saveChan := q\<rparr>) item = save E al item"
  by (simp add: save_def saveItem_fs_only Let_def cong: sum.case_cong if_cong)

lemma Get_fs_only: "fs al' = fs al \<Longrightarrow> Get E al' p = Get E al p"
  by (simp add: Get_def Let_def)

lemma loadLoop_fs_only: "fs al' = fs al \<Longrightarrow> loadLoop E al' files items = loadLoop E al files items"
proof (induction files arbitrary: items)
  case Nil
  show ?case by simp
next
  case (Cons fi files)
  have g: "Get E al' (Join [queryPath, fi_Name fi]) = Get E al (Join [queryPath, fi_Name fi])"
    using Cons.prems by (rule Get_fs_only)
  show ?case
    using Cons.IH [OF Cons.prems] g by (simp split: prod.splits option.splits)
qed

lemma Load_fs_only: "fs al' = fs al \<Longrightarrow> Load E al' = Load E al"
  using loadLoop_fs_only [where al' = al' and al = al and E = E]
  by (simp add: Load_def cong: sum.case_cong prod.case_cong option.case_cong bool.case_cong)

lemma writer_step:
  "writer E conf (al\<lparr>saveChan := Some (item # queue)\<rparr>, logged) =
    (al\<lparr>saveChan := Some queue, fs := snd (save E al item)\<rparr>,
     case fst (save E al item) of
       Some err \<Rightarrow> if Log conf then logged @ [err] else logged
     | None \<Rightarrow> logged)"
proof -
  have s: "save E (al\<lparr>saveChan := Some (item # queue), saveChan := Some queue\<rparr>) item
      = save E al item"
    using save_fs_only [where E = E and al = al and q = "Some queue" and item = item] by simp
  obtain err f' where r: "save E al item = (err, f')" by (cases "save E al item")
  show ?thesis using s r by (cases err) (simp_all add: writer_def)
qed

text \<open>
  C2. One turn of the background writer on the queue \<open>item # queue\<close> receives \<open>item\<close>,
  runs \<^verbatim>\<open>save\<close> on it, leaves the filesystem that \<^verbatim>\<open>save\<close> leaves and logs the error of
  \<^verbatim>\<open>save\<close> (when there is a logger). The writer persists a record only if the
  canonicalizing parse and the name extraction succeed with a name that is not empty:
  whenever the turn changes the filesystem, that is the case, and when the parse is
  rejected the turn leaves the filesystem as it was. \<^verbatim>\<open>Set\<close> accepts every non-empty
  text and queues a draft without a name. When the operation turns out to be anonymous,
  \<^verbatim>\<open>save\<close> returns its error with the filesystem untouched, the writer logs it, and
  \<^verbatim>\<open>Load\<close> afterwards returns what it returned before. When the name is not empty, the
  writer persists the record with \<open>Name\<close> and \<open>key\<close> overwritten by it: the filesystem
  after the turn is the one \<^verbatim>\<open>saveItem\<close> leaves for that record. A writer with nothing
  to receive changes nothing.
\<close>

theorem save_named_only:
  "(snd (save E al item) \<noteq> fs al \<longrightarrow>
      (\<exists>query hName. qdParse E (Query item) = Inr query \<and> FastParse E query = Inr hName
         \<and> hName \<noteq> []))
   \<and> (qdParse E (Query item) = Inr query \<and> FastParse E query = Inr [] \<longrightarrow>
        save E al item = (Some ErrNoQueryName, fs al)
        \<and> writer E conf (al\<lparr>saveChan := Some (item # queue)\<rparr>, logged) =
            (al\<lparr>saveChan := Some queue\<rparr>, if Log conf then logged @ [ErrNoQueryName] else logged)
        \<and> Load E (fst (writer E conf (al\<lparr>saveChan := Some (item # queue)\<rparr>, logged))) = Load E al)
   \<and> (qdParse E (Query item) = Inr query \<and> FastParse E query = Inr hName \<and> hName \<noteq> [] \<longrightarrow>
        save E al item =
          saveItem E al (item\<lparr>Name := hName, key := ToLower (tables E) hName\<rparr>) True)
   \<and> (saveChan al = Some queue \<and> b \<noteq> [] \<longrightarrow>
        (\<exists>draft. Set E al vars b md namespace =
            Returns (None, al\<lparr>saveChan := Some (queue @ [draft])\<rparr>)
          \<and> Name draft = []))
   \<and> writer E conf (al\<lparr>saveChan := Some (item # queue)\<rparr>, logged) =
        (al\<lparr>saveChan := Some queue, fs := snd (save E al item)\<rparr>,
         case fst (save E al item) of
           Some err \<Rightarrow> if Log conf then logged @ [err] else logged
         | None \<Rightarrow> logged)
   \<and> (fs (fst (writer E conf (al\<lparr>saveChan := Some (item # queue)\<rparr>, logged))) \<noteq> fs al \<longrightarrow>
        (\<exists>query hName. qdParse E (Query item) = Inr query \<and> FastParse E query = Inr hName
           \<and> hName \<noteq> []))
   \<and> (qdParse E (Query item) = Inl e \<longrightarrow>
        writer E conf (al\<lparr>saveChan := Some (item # queue)\<rparr>, logged) =
          (al\<lparr>saveChan := Some queue\<rparr>, if Log conf then logged @ [ErrExternal e] else logged))
   \<and> (qdParse E (Query item) = Inr query \<and> FastParse E query = Inl e \<longrightarrow>
        writer E conf (al\<lparr>saveChan := Some (item # queue)\<rparr>, logged) =
          (al\<lparr>saveChan := Some queue\<rparr>, if Log conf then logged @ [ErrExternal e] else logged))
   \<and> (qdParse E (Query item) = Inr query \<and> FastParse E query = Inr hName \<and> hName \<noteq> [] \<longrightarrow>
        fs (fst (writer E conf (al\<lparr>saveChan := Some (item # queue)\<rparr>, logged))) =
          snd (saveItem E al (item\<lparr>Name := hName, key := ToLower (tables E) hName\<rparr>) True)
        \<and> saveChan (fst (writer E conf (al\<lparr>saveChan := Some (item # queue)\<rparr>, logged))) =
          Some queue)
   \<and> writer E conf (al\<lparr>saveChan := Some []\<rparr>, logged) = (al\<lparr>saveChan := Some []\<rparr>, logged)
   \<and> writer E conf (al\<lparr>saveChan := None\<rparr>, logged) = (al\<lparr>saveChan := None\<rparr>, logged)"
proof -
  note w = writer_step [where E = E and conf = conf and al = al and item = item and queue = queue
      and logged = logged]
  have a: "snd (save E al item) \<noteq> fs al \<longrightarrow>
      (\<exists>query hName. qdParse E (Query item) = Inr query \<and> FastParse E query = Inr hName
         \<and> hName \<noteq> [])"
    by (auto simp: save_def split: sum.splits if_splits)
  have b: "qdParse E (Query item) = Inr query \<and> FastParse E query = Inr [] \<longrightarrow>
        save E al item = (Some ErrNoQueryName, fs al)
        \<and> writer E conf (al\<lparr>saveChan := Some (item # queue)\<rparr>, logged) =
            (al\<lparr>saveChan := Some queue\<rparr>, if Log conf then logged @ [ErrNoQueryName] else logged)
        \<and> Load E (fst (writer E conf (al\<lparr>saveChan := Some (item # queue)\<rparr>, logged))) = Load E al"
  proof
    assume h: "qdParse E (Query item) = Inr query \<and> FastParse E query = Inr []"
    then have s: "save E al item = (Some ErrNoQueryName, fs al)" by (simp add: save_def)
    have wr: "writer E conf (al\<lparr>saveChan := Some (item # queue)\<rparr>, logged) =
            (al\<lparr>saveChan := Some queue\<rparr>, if Log conf then logged @ [ErrNoQueryName] else logged)"
      using w s by simp
    have "Load E (al\<lparr>saveChan := Some queue\<rparr>) = Load E al" by (rule Load_fs_only) simp
    then show "save E al item = (Some ErrNoQueryName, fs al)
        \<and> writer E conf (al\<lparr>saveChan := Some (item # queue)\<rparr>, logged) =
            (al\<lparr>saveChan := Some queue\<rparr>, if Log conf then logged @ [ErrNoQueryName] else logged)
        \<and> Load E (fst (writer E conf (al\<lparr>saveChan := Some (item # queue)\<rparr>, logged))) = Load E al"
      using s wr by simp
  qed
  have c: "qdParse E (Query item) = Inr query \<and> FastParse E query = Inr hName \<and> hName \<noteq> [] \<longrightarrow>
        save E al item =
          saveItem E al (item\<lparr>Name := hName, key := ToLower (tables E) hName\<rparr>) True"
    by (simp add: save_def Let_def)
  have d: "saveChan al = Some queue \<and> b \<noteq> [] \<longrightarrow>
        (\<exists>draft. Set E al vars b md namespace =
            Returns (None, al\<lparr>saveChan := Some (queue @ [draft])\<rparr>)
          \<and> Name draft = [])"
  proof
    assume h: "saveChan al = Some queue \<and> b \<noteq> []"
    obtain seg where pq: "parseQuery (tables E) b = Returns (seg, None)" and n: "Name seg = []"
      using parseQuery_ok [of "tables E" b] by blast
    have "Set E al vars b md namespace =
        Returns (None, al\<lparr>saveChan :=
          Some (queue @ [seg\<lparr>Namespace := namespace, Vars := vars, Metadata := md\<rparr>])\<rparr>)"
      using h pq by (simp add: Set_def)
    moreover have "Name (seg\<lparr>Namespace := namespace, Vars := vars, Metadata := md\<rparr>) = []"
      using n by simp
    ultimately show "\<exists>draft. Set E al vars b md namespace =
            Returns (None, al\<lparr>saveChan := Some (queue @ [draft])\<rparr>)
          \<and> Name draft = []" by blast
  qed
  have f: "fs (fst (writer E conf (al\<lparr>saveChan := Some (item # queue)\<rparr>, logged))) \<noteq> fs al \<longrightarrow>
        (\<exists>query hName. qdParse E (Query item) = Inr query \<and> FastParse E query = Inr hName
           \<and> hName \<noteq> [])"
    using a w by simp
  have g: "qdParse E (Query item) = Inl e \<longrightarrow>
        writer E conf (al\<lparr>saveChan := Some (item # queue)\<rparr>, logged) =
          (al\<lparr>saveChan := Some queue\<rparr>, if Log conf then logged @ [ErrExternal e] else logged)"
  proof
    assume "qdParse E (Query item) = Inl e"
    then have "save E al item = (Some (ErrExternal e), fs al)" by (simp add: save_def)
    then show "writer E conf (al\<lparr>saveChan := Some (item # queue)\<rparr>, logged) =
          (al\<lparr>saveChan := Some queue\<rparr>, if Log conf then logged @ [ErrExternal e] else logged)"
      using w by simp
  qed
  have h: "qdParse E (Query item) = Inr query \<and> FastParse E query = Inl e \<longrightarrow>
        writer E conf (al\<lparr>saveChan := Some (item # queue)\<rparr>, logged) =
          (al\<lparr>saveChan := Some queue\<rparr>, if Log conf then logged @ [ErrExternal e] else logged)"
  proof
    assume "qdParse E (Query item) = Inr query \<and> FastParse E query = Inl e"
    then have "save E al item = (Some (ErrExternal e), fs al)" by (simp add: save_def)
    then show "writer E conf (al\<lparr>saveChan := Some (item # queue)\<rparr>, logged) =
          (al\<lparr>saveChan := Some queue\<rparr>, if Log conf then logged @ [ErrExternal e] else logged)"
      using w by simp
  qed
  have i: "qdParse E (Query item) = Inr query \<and> FastParse E query = Inr hName \<and> hName \<noteq> [] \<longrightarrow>
        fs (fst (writer E conf (al\<lparr>saveChan := Some (item # queue)\<rparr>, logged))) =
          snd (saveItem E al (item\<lparr>Name := hName, key := ToLower (tables E) hName\<rparr>) True)
        \<and> saveChan (fst (writer E conf (al\<lparr>saveChan := Some (item # queue)\<rparr>, logged))) =
          Some queue"
    using c w by simp
  have j: "writer E conf (al\<lparr>saveChan := Some []\<rparr>, logged) = (al\<lparr>saveChan := Some []\<rparr>, logged)"
    by (simp add: writer_def)
  have k: "writer E conf (al\<lparr>saveChan := None\<rparr>, logged) = (al\<lparr>saveChan := None\<rparr>, logged)"
    by (simp add: writer_def)
  show ?thesis using a b c d w f g h i j k by blast
qed

lemma anonymous_sample:
  "parseQuery asciiOnly ''query { id }'' = Returns (zeroItem\<lparr>Query := ''query { id }''\<rparr>, None)"
  "qdParse sampleDeps ''query { id }'' = Inr ''query { id }''"
  "FastParse sampleDeps ''query { id }'' = Inr []"
  "qdParse sampleDeps ''query GetUser { id }'' = Inr ''query GetUser { id }''"
  "FastParse sampleDeps ''query GetUser { id }'' = Inr ''GetUser''"
  "Load sampleDeps sampleStore = ([], None)"
  by code_simp+

lemma named_sample:
  "nodes (snd (saveItem sampleDeps sampleStore
      (zeroItem\<lparr>Query := ''query GetUser { id }'', Namespace := ''app'', Vars := ''{}'',
         Name := ''GetUser'', key := ToLower (tables sampleDeps) ''GetUser''\<rparr>) True)) =
    [(''/queries'', DirNode), (''/fragments'', DirNode),
     (''/queries/app.GetUser.yaml'', FileNode (''GetUser'' @ [newline] @ ''query GetUser { id }''))]"
  "nodes (fs sampleStore) = [(''/queries'', DirNode), (''/fragments'', DirNode)]"
  by code_simp+

theorem save_named_only_witness:
  "Set sampleDeps sampleStore ''{}'' ''query { id }'' zeroMetadata ''app'' =
     Returns (None, sampleStore\<lparr>saveChan :=
        Some [zeroItem\<lparr>Query := ''query { id }'', Namespace := ''app'', Vars := ''{}''\<rparr>]\<rparr>)
   \<and> qdParse sampleDeps ''query { id }'' = Inr ''query { id }''
   \<and> FastParse sampleDeps ''query { id }'' = Inr []
   \<and> writer sampleDeps \<lparr>Log = True\<rparr>
        (sampleStore\<lparr>saveChan :=
           Some [zeroItem\<lparr>Query := ''query { id }'', Namespace := ''app'', Vars := ''{}''\<rparr>]\<rparr>, []) =
       (sampleStore\<lparr>saveChan := Some []\<rparr>, [ErrNoQueryName])
   \<and> Load sampleDeps (fst (writer sampleDeps \<lparr>Log = True\<rparr>
        (sampleStore\<lparr>saveChan :=
           Some [zeroItem\<lparr>Query := ''query { id }'', Namespace := ''app'', Vars := ''{}''\<rparr>]\<rparr>, [])))
       = ([], None)
   \<and> FastParse sampleDeps ''query GetUser { id }'' = Inr ''GetUser''
   \<and> nodes (snd (save sampleDeps sampleStore
        (zeroItem\<lparr>Query := ''query GetUser { id }'', Namespace := ''app'', Vars := ''{}''\<rparr>))) =
       [(''/queries'', DirNode), (''/fragments'', DirNode),
        (''/queries/app.GetUser.yaml'', FileNode (''GetUser'' @ [newline] @ ''query GetUser { id }''))]
   \<and> snd (save sampleDeps sampleStore
        (zeroItem\<lparr>Query := ''query GetUser { id }'', Namespace := ''app'', Vars := ''{}''\<rparr>))
       \<noteq> fs sampleStore
   \<and> nodes (fs (fst (writer sampleDeps \<lparr>Log = True\<rparr>
        (sampleStore\<lparr>saveChan :=
           Some [zeroItem\<lparr>Query := ''query GetUser { id }'', Namespace := ''app'',
                   Vars := ''{}''\<rparr>]\<rparr>, [])))) =
       [(''/queries'', DirNode), (''/fragments'', DirNode),
        (''/queries/app.GetUser.yaml'', FileNode (''GetUser'' @ [newline] @ ''query GetUser { id }''))]
   \<and> fs (fst (writer sampleDeps \<lparr>Log = True\<rparr>
        (sampleStore\<lparr>saveChan :=
           Some [zeroItem\<lparr>Query := ''query GetUser { id }'', Namespace := ''app'',
                   Vars := ''{}''\<rparr>]\<rparr>, []))) \<noteq> fs sampleStore"
proof -
  have sc: "saveChan sampleStore = Some []" by (simp add: sampleStore_def)
  have tb: "tables sampleDeps = asciiOnly" by (rule tables_sample)
  have st: "Set sampleDeps sampleStore ''{}'' ''query { id }'' zeroMetadata ''app'' =
     Returns (None, sampleStore\<lparr>saveChan :=
        Some [zeroItem\<lparr>Query := ''query { id }'', Namespace := ''app'', Vars := ''{}''\<rparr>]\<rparr>)"
    using anonymous_sample(1) sc tb by (simp add: Set_def zeroItem_def)
  note anon = save_named_only [where E = sampleDeps and al = sampleStore
      and item = "zeroItem\<lparr>Query := ''query { id }'', Namespace := ''app'', Vars := ''{}''\<rparr>"
      and query = "''query { id }''" and conf = "\<lparr>Log = True\<rparr>" and queue = "[]" and logged = "[]"]
  have q1: "Query (zeroItem\<lparr>Query := ''query { id }'', Namespace := ''app'', Vars := ''{}''\<rparr>)
      = ''query { id }''" by simp
  have q2: "Query (zeroItem\<lparr>Query := ''query GetUser { id }'', Namespace := ''app'', Vars := ''{}''\<rparr>)
      = ''query GetUser { id }''" by simp
  note named = save_named_only [where E = sampleDeps and al = sampleStore
      and item = "zeroItem\<lparr>Query := ''query GetUser { id }'', Namespace := ''app'', Vars := ''{}''\<rparr>"
      and query = "''query GetUser { id }''" and hName = "''GetUser''"]
  have w: "writer sampleDeps \<lparr>Log = True\<rparr>
        (sampleStore\<lparr>saveChan :=
           Some [zeroItem\<lparr>Query := ''query { id }'', Namespace := ''app'', Vars := ''{}''\<rparr>]\<rparr>, []) =
       (sampleStore\<lparr>saveChan := Some []\<rparr>, [ErrNoQueryName])"
  proof -
    have "writer sampleDeps \<lparr>Log = True\<rparr>
        (sampleStore\<lparr>saveChan :=
           Some [zeroItem\<lparr>Query := ''query { id }'', Namespace := ''app'', Vars := ''{}''\<rparr>]\<rparr>, []) =
       (sampleStore\<lparr>saveChan := Some []\<rparr>, if Log \<lparr>Log = True\<rparr> then [] @ [ErrNoQueryName] else [])"
      using anon [unfolded q1] anonymous_sample(2,3) by blast
    then show ?thesis by simp
  qed
  have l: "Load sampleDeps (fst (writer sampleDeps \<lparr>Log = True\<rparr>
        (sampleStore\<lparr>saveChan :=
           Some [zeroItem\<lparr>Query := ''query { id }'', Namespace := ''app'', Vars := ''{}''\<rparr>]\<rparr>, [])))
       = ([], None)"
  proof -
    have "Load sampleDeps (fst (writer sampleDeps \<lparr>Log = True\<rparr>
        (sampleStore\<lparr>saveChan :=
           Some [zeroItem\<lparr>Query := ''query { id }'', Namespace := ''app'', Vars := ''{}''\<rparr>]\<rparr>, [])))
       = Load sampleDeps sampleStore"
      using anon [unfolded q1] anonymous_sample(2,3) by blast
    then show ?thesis by (simp only: anonymous_sample(6))
  qed
  have sv: "save sampleDeps sampleStore
        (zeroItem\<lparr>Query := ''query GetUser { id }'', Namespace := ''app'', Vars := ''{}''\<rparr>) =
      saveItem sampleDeps sampleStore
        (zeroItem\<lparr>Query := ''query GetUser { id }'', Namespace := ''app'', Vars := ''{}'',
           Name := ''GetUser'', key := ToLower (tables sampleDeps) ''GetUser''\<rparr>) True"
    using named [unfolded q2] anonymous_sample(4,5) by simp
  have n: "nodes (snd (save sampleDeps sampleStore
        (zeroItem\<lparr>Query := ''query GetUser { id }'', Namespace := ''app'', Vars := ''{}''\<rparr>))) =
       [(''/queries'', DirNode), (''/fragments'', DirNode),
        (''/queries/app.GetUser.yaml'', FileNode (''GetUser'' @ [newline] @ ''query GetUser { id }''))]"
    unfolding sv using named_sample(1) .
  have ne: "snd (save sampleDeps sampleStore
        (zeroItem\<lparr>Query := ''query GetUser { id }'', Namespace := ''app'', Vars := ''{}''\<rparr>))
       \<noteq> fs sampleStore"
  proof
    assume "snd (save sampleDeps sampleStore
        (zeroItem\<lparr>Query := ''query GetUser { id }'', Namespace := ''app'', Vars := ''{}''\<rparr>))
       = fs sampleStore"
    then have "nodes (snd (save sampleDeps sampleStore
        (zeroItem\<lparr>Query := ''query GetUser { id }'', Namespace := ''app'', Vars := ''{}''\<rparr>)))
       = nodes (fs sampleStore)" by simp
    then show False using n named_sample(2) by simp
  qed
  note namedW = save_named_only [where E = sampleDeps and al = sampleStore
      and item = "zeroItem\<lparr>Query := ''query GetUser { id }'', Namespace := ''app'', Vars := ''{}''\<rparr>"
      and query = "''query GetUser { id }''" and hName = "''GetUser''"
      and conf = "\<lparr>Log = True\<rparr>" and queue = "[]" and logged = "[]"]
  have wf: "fs (fst (writer sampleDeps \<lparr>Log = True\<rparr>
        (sampleStore\<lparr>saveChan :=
           Some [zeroItem\<lparr>Query := ''query GetUser { id }'', Namespace := ''app'',
                   Vars := ''{}''\<rparr>]\<rparr>, []))) =
      snd (saveItem sampleDeps sampleStore
        (zeroItem\<lparr>Query := ''query GetUser { id }'', Namespace := ''app'', Vars := ''{}'',
           Name := ''GetUser'', key := ToLower (tables sampleDeps) ''GetUser''\<rparr>) True)"
    using namedW [unfolded q2] anonymous_sample(4,5) by simp
  have wn: "nodes (fs (fst (writer sampleDeps \<lparr>Log = True\<rparr>
        (sampleStore\<lparr>saveChan :=
           Some [zeroItem\<lparr>Query := ''query GetUser { id }'', Namespace := ''app'',
                   Vars := ''{}''\<rparr>]\<rparr>, [])))) =
       [(''/queries'', DirNode), (''/fragments'', DirNode),
        (''/queries/app.GetUser.yaml'', FileNode (''GetUser'' @ [newline] @ ''query GetUser { id }''))]"
    unfolding wf using named_sample(1) .
  have wne: "fs (fst (writer sampleDeps \<lparr>Log = True\<rparr>
        (sampleStore\<lparr>saveChan :=
           Some [zeroItem\<lparr>Query := ''query GetUser { id }'', Namespace := ''app'',
                   Vars := ''{}''\<rparr>]\<rparr>, []))) \<noteq> fs sampleStore"
  proof
    assume "fs (fst (writer sampleDeps \<lparr>Log = True\<rparr>
        (sampleStore\<lparr>saveChan :=
           Some [zeroItem\<lparr>Query := ''query GetUser { id }'', Namespace := ''app'',
                   Vars := ''{}''\<rparr>]\<rparr>, []))) = fs sampleStore"
    then have "nodes (fs (fst (writer sampleDeps \<lparr>Log = True\<rparr>
        (sampleStore\<lparr>saveChan :=
           Some [zeroItem\<lparr>Query := ''query GetUser { id }'', Namespace := ''app'',
                   Vars := ''{}''\<rparr>]\<rparr>, [])))) = nodes (fs sampleStore)" by simp
    then show False using wn named_sample(2) by simp
  qed
  show ?thesis using st w l n ne wn wne anonymous_sample(2,3,5) by simp
qed














end
